theory Spec2Isabelle
  imports Main
begin

section \<open>Data model of the grid (Grid.tsx)\<close>

text \<open>
  Indices and pixel quantities are JavaScript numbers in the source; the geometry below
  only compares, adds and subtracts them, so they are modelled as unbounded integers.
  An optional field (\<^verbatim>\<open>rowIndex?: number\<close>) is an \<open>option\<close>; \<^verbatim>\<open>void 0\<close> is \<open>None\<close>.
\<close>

text \<open>
  Modelled from the spec: \<^verbatim>\<open>Direction\<close> of ./types is not part of the sources at hand.
  Grid.tsx and the spec name four scroll directions: up, down, left and right.
\<close>

datatype Direction = Up | Down | Left_dir | Right_dir

text \<open>\<^verbatim>\<open>AreaProps\<close>: inclusive index bounds of a rectangular block of cells.\<close>

record AreaProps =
  top_idx :: int
  bottom :: int
  left :: int
  right :: int

record CellInterface =
  rowIndex :: int
  columnIndex :: int

record OptionalCellInterface =
  optRowIndex :: "int option"
  optColumnIndex :: "int option"

record CellMetaData =
  offset :: int
  size_px :: int

record InstanceInterface =
  columnMetadataMap :: "int \<rightharpoonup> CellMetaData"
  rowMetadataMap :: "int \<rightharpoonup> CellMetaData"
  lastMeasuredColumnIndex :: int
  lastMeasuredRowIndex :: int
  estimatedRowHeight :: int
  estimatedColumnWidth :: int
  recalcColumnIndices :: "int list"
  recalcRowIndices :: "int list"

text \<open>
  The mutable refs of one grid instance that the size store touches: the
  \<^verbatim>\<open>instanceProps\<close> ref and the counter behind \<^verbatim>\<open>forceRender\<close>
  (\<^verbatim>\<open>useReducer((s) => s + 1, 0)\<close>).
\<close>

record GridInstance =
  instanceProps :: InstanceInterface
  forceRenderCount :: nat

record ScrollState =
  scrollTop :: int
  scrollLeft :: int
  isScrolling :: bool
  verticalScrollDirection :: Direction
  horizontalScrollDirection :: Direction

record ViewPortProps =
  rowStartIndex :: int
  rowStopIndex :: int
  columnStartIndex :: int
  columnStopIndex :: int

record CellRangeArea = CellInterface +
  toColumnIndex :: int

text \<open>
  Modelled from the spec: \<^verbatim>\<open>Align\<close> of ./helpers is not part of the sources at hand. The
  spec names the alignment modes start, end, center and smart.
\<close>

datatype Align = Align_start | Align_end | Align_center | Align_smart

text \<open>The props of the grid that the geometry reads (defaults of the source in brackets).\<close>

record GridProps =
  containerWidth :: int  \<comment> \<open>\<^verbatim>\<open>width\<close> [800]\<close>
  containerHeight :: int  \<comment> \<open>\<^verbatim>\<open>height\<close> [600]\<close>
  rowCount :: int
  columnCount :: int
  showScrollbar :: bool
  frozenRows :: int
  frozenColumns :: int
  mergedCells :: "AreaProps list"
  overscanCount :: int
  isHiddenRow :: "(int \<Rightarrow> bool) option"
  cellAreas :: "CellRangeArea list"

text \<open>
  The geometry functions that Grid.tsx imports from ./helpers, and the stage transform
  behind \<^verbatim>\<open>getRelativePositionFromOffset\<close>, are not part of the sources at hand. They are
  parameters of the model. Each is a function of the arguments that vary between its call
  sites in Grid.tsx; the props and the size cache that it also receives are the same at
  every call of one render.
\<close>

record Helpers =
  getRowStartIndexForOffset :: "int \<Rightarrow> int"  \<comment> \<open>\<^verbatim>\<open>offset\<close>\<close>
  getRowStopIndexForStartIndex :: "int \<Rightarrow> int \<Rightarrow> int"  \<comment> \<open>\<^verbatim>\<open>startIndex\<close>, \<^verbatim>\<open>scrollTop\<close>\<close>
  getColumnStartIndexForOffset :: "int \<Rightarrow> int"  \<comment> \<open>\<^verbatim>\<open>offset\<close>\<close>
  getColumnStopIndexForStartIndex :: "int \<Rightarrow> int \<Rightarrow> int"  \<comment> \<open>\<^verbatim>\<open>startIndex\<close>, \<^verbatim>\<open>scrollLeft\<close>\<close>
  getRowOffset :: "int \<Rightarrow> int"  \<comment> \<open>\<^verbatim>\<open>index\<close>\<close>
  getColumnOffset :: "int \<Rightarrow> int"  \<comment> \<open>\<^verbatim>\<open>index\<close>\<close>
  getRowHeight :: "int \<Rightarrow> int"  \<comment> \<open>\<^verbatim>\<open>index\<close>\<close>
  getColumnWidth :: "int \<Rightarrow> int"  \<comment> \<open>\<^verbatim>\<open>index\<close>\<close>
  getOffsetForRowAndAlignment :: "int \<Rightarrow> Align \<Rightarrow> int \<Rightarrow> int \<Rightarrow> int"
    \<comment> \<open>\<^verbatim>\<open>index\<close>, \<^verbatim>\<open>align\<close>, \<^verbatim>\<open>scrollOffset\<close>, \<^verbatim>\<open>frozenOffset\<close>\<close>
  getOffsetForColumnAndAlignment :: "int \<Rightarrow> Align \<Rightarrow> int \<Rightarrow> int \<Rightarrow> int"
    \<comment> \<open>\<^verbatim>\<open>index\<close>, \<^verbatim>\<open>align\<close>, \<^verbatim>\<open>scrollOffset\<close>, \<^verbatim>\<open>frozenOffset\<close>\<close>
  getRelativePositionFromOffset :: "int \<Rightarrow> int \<Rightarrow> (int \<times> int) option"
    \<comment> \<open>\<^verbatim>\<open>left\<close>, \<^verbatim>\<open>top\<close>; \<open>None\<close> is \<^verbatim>\<open>null\<close> (no stage)\<close>

section \<open>Size metadata store: invalidation\<close>

text \<open>
  \<^verbatim>\<open>resetAfterIndices({ columnIndex, rowIndex }, shouldForceUpdate = true)\<close>.
  \<^verbatim>\<open>typeof columnIndex === "number"\<close> is the test that the optional index is present.
\<close>

definition resetAfterIndices ::
  "OptionalCellInterface \<Rightarrow> bool \<Rightarrow> GridInstance \<Rightarrow> GridInstance" where
  "resetAfterIndices coords shouldForceUpdate g =
     (let ip0 = instanceProps g;
          ip1 = (case optColumnIndex coords of
                   None \<Rightarrow> ip0
                 | Some c \<Rightarrow>
                     ip0\<lparr>recalcColumnIndices := [],
                         lastMeasuredColumnIndex := min (lastMeasuredColumnIndex ip0) (c - 1)\<rparr>);
          ip2 = (case optRowIndex coords of
                   None \<Rightarrow> ip1
                 | Some r \<Rightarrow>
                     ip1\<lparr>recalcRowIndices := [],
                         lastMeasuredRowIndex := min (lastMeasuredRowIndex ip1) (r - 1)\<rparr>)
      in g\<lparr>instanceProps := ip2,
            forceRenderCount :=
              (if shouldForceUpdate then Suc (forceRenderCount g) else forceRenderCount g)\<rparr>)"

section \<open>Merged cells\<close>

text \<open>
  Modelled from the spec: \<^verbatim>\<open>cellIdentifier\<close> of ./helpers is not part of the sources at
  hand. The spec calls it the composite key \<open>(rowIndex, columnIndex)\<close> of the merged index;
  it is the pair of the two indices.
\<close>

type_synonym CellId = "int \<times> int"

definition cellIdentifier :: "int \<Rightarrow> int \<Rightarrow> CellId" where
  "cellIdentifier r c = (r, c)"

text \<open>
  Modelled from the spec: \<^verbatim>\<open>getBoundedCells\<close> of ./helpers is not part of the sources at
  hand. The spec: for a region, enumerate every \<open>(row, col)\<close> pair inside its (inclusive)
  bounds.
\<close>

definition getBoundedCells :: "AreaProps \<Rightarrow> CellId list" where
  "getBoundedCells bounds =
     concat (map (\<lambda>i. map (\<lambda>j. cellIdentifier i j) [left bounds..right bounds])
                 [top_idx bounds..bottom bounds])"

text \<open>
  \<^verbatim>\<open>mergedCellMap\<close>: a \<^verbatim>\<open>Map\<close> from cell identifier to the bounds of the merged region,
  filled region by region in list order; \<^verbatim>\<open>Map.set\<close> overwrites an earlier entry.
\<close>

type_synonym MergedCellMap = "CellId \<rightharpoonup> AreaProps"

definition mergedCellMap :: "AreaProps list \<Rightarrow> MergedCellMap" where
  "mergedCellMap regions =
     fold (\<lambda>bounds m. fold (\<lambda>cell m'. m'(cell \<mapsto> bounds)) (getBoundedCells bounds) m)
          regions Map.empty"

definition isMergedCell :: "MergedCellMap \<Rightarrow> CellInterface \<Rightarrow> bool" where
  "isMergedCell m c = (m (cellIdentifier (rowIndex c) (columnIndex c)) \<noteq> None)"

text \<open>
  \<^verbatim>\<open>getCellBounds\<close>: the stored bounds when the map has the key (\<^verbatim>\<open>has\<close> then \<^verbatim>\<open>get\<close>),
  else the 1 x 1 area of the cell itself.
\<close>

definition getCellBounds :: "MergedCellMap \<Rightarrow> CellInterface \<Rightarrow> AreaProps" where
  "getCellBounds m c =
     (case m (cellIdentifier (rowIndex c) (columnIndex c)) of
        Some bounds \<Rightarrow> bounds
      | None \<Rightarrow> \<lparr>top_idx = rowIndex c, bottom = rowIndex c,
                left = columnIndex c, right = columnIndex c\<rparr>)"

definition getActualCellCoords :: "MergedCellMap \<Rightarrow> CellInterface \<Rightarrow> CellInterface" where
  "getActualCellCoords m c =
     (case m (cellIdentifier (rowIndex c) (columnIndex c)) of
        Some cell \<Rightarrow> \<lparr>rowIndex = top_idx cell, columnIndex = left cell\<rparr>
      | None \<Rightarrow> \<lparr>rowIndex = rowIndex c, columnIndex = columnIndex c\<rparr>)"

text \<open>
  The data-model invariant on the list of merged regions: two different regions of the
  list share no cell.
\<close>

definition nonOverlapping :: "AreaProps list \<Rightarrow> bool" where
  "nonOverlapping rs =
     (\<forall>a \<in> set rs. \<forall>b \<in> set rs.
        a \<noteq> b \<longrightarrow> set (getBoundedCells a) \<inter> set (getBoundedCells b) = {})"

section \<open>Viewport range calculator\<close>

text \<open>
  The two overscan amounts are local constants of \<^verbatim>\<open>getVerticalRangeToRender\<close> and of
  \<^verbatim>\<open>getHorizontalRangeToRender\<close>; they are named here per axis.
\<close>

definition overscanBackward_vertical :: "GridProps \<Rightarrow> ScrollState \<Rightarrow> int" where
  "overscanBackward_vertical p s =
     (if \<not> isScrolling s \<or> verticalScrollDirection s = Up
      then max 1 (overscanCount p) else 1)"

definition overscanForward_vertical :: "GridProps \<Rightarrow> ScrollState \<Rightarrow> int" where
  "overscanForward_vertical p s =
     (if \<not> isScrolling s \<or> verticalScrollDirection s = Down
      then max 1 (overscanCount p) else 1)"

definition overscanBackward_horizontal :: "GridProps \<Rightarrow> ScrollState \<Rightarrow> int" where
  "overscanBackward_horizontal p s =
     (if \<not> isScrolling s \<or> horizontalScrollDirection s = Left_dir
      then max 1 (overscanCount p) else 1)"

definition overscanForward_horizontal :: "GridProps \<Rightarrow> ScrollState \<Rightarrow> int" where
  "overscanForward_horizontal p s =
     (if \<not> isScrolling s \<or> horizontalScrollDirection s = Right_dir
      then max 1 (overscanCount p) else 1)"

text \<open>The result array \<^verbatim>\<open>[start, stop, preciseStart, preciseStop]\<close> is a 4-tuple.\<close>

definition getVerticalRangeToRender ::
  "Helpers \<Rightarrow> GridProps \<Rightarrow> ScrollState \<Rightarrow> int \<times> int \<times> int \<times> int" where
  "getVerticalRangeToRender h p s =
     (let startIndex = getRowStartIndexForOffset h (scrollTop s);
          stopIndex = getRowStopIndexForStartIndex h startIndex (scrollTop s);
          overscanBackward = overscanBackward_vertical p s;
          overscanForward = overscanForward_vertical p s
      in (max 0 (startIndex - overscanBackward),
          max 0 (min (rowCount p - 1) (stopIndex + overscanForward)),
          startIndex,
          stopIndex))"

definition getHorizontalRangeToRender ::
  "Helpers \<Rightarrow> GridProps \<Rightarrow> ScrollState \<Rightarrow> int \<times> int \<times> int \<times> int" where
  "getHorizontalRangeToRender h p s =
     (let startIndex = getColumnStartIndexForOffset h (scrollLeft s);
          stopIndex = getColumnStopIndexForStartIndex h startIndex (scrollLeft s);
          overscanBackward = overscanBackward_horizontal p s;
          overscanForward = overscanForward_horizontal p s
      in (max 0 (startIndex - overscanBackward),
          max 0 (min (columnCount p - 1) (stopIndex + overscanForward)),
          startIndex,
          stopIndex))"

section \<open>Pixel hit-testing\<close>

definition isWithinFrozenColumnBoundary :: "Helpers \<Rightarrow> GridProps \<Rightarrow> int \<Rightarrow> bool" where
  "isWithinFrozenColumnBoundary h p x =
     (let frozenColumnWidth = getColumnOffset h (frozenColumns p)
      in frozenColumns p > 0 \<and> x < frozenColumnWidth)"

definition isWithinFrozenRowBoundary :: "Helpers \<Rightarrow> GridProps \<Rightarrow> int \<Rightarrow> bool" where
  "isWithinFrozenRowBoundary h p y =
     (let frozenRowHeight = getRowOffset h (frozenRows p)
      in frozenRows p > 0 \<and> y < frozenRowHeight)"

definition getCellCoordsFromOffset ::
  "Helpers \<Rightarrow> GridProps \<Rightarrow> ScrollState \<Rightarrow> int \<Rightarrow> int \<Rightarrow> CellInterface option" where
  "getCellCoordsFromOffset h p s left_px top_px =
     (case getRelativePositionFromOffset h left_px top_px of
        None \<Rightarrow> None
      | Some (x, y) \<Rightarrow>
          (let rowIdx = getRowStartIndexForOffset h
                 (if isWithinFrozenRowBoundary h p y then y else y + scrollTop s);
               columnIdx = getColumnStartIndexForOffset h
                 (if isWithinFrozenColumnBoundary h p x then x else x + scrollLeft s);
               bounds = getCellBounds (mergedCellMap (mergedCells p))
                 \<lparr>rowIndex = rowIdx, columnIndex = columnIdx\<rparr>
           in Some \<lparr>rowIndex = top_idx bounds, columnIndex = left bounds\<rparr>))"

section \<open>Scrolling to a cell\<close>

record OptionalScrollCoords =
  optScrollTop :: "int option"
  optScrollLeft :: "int option"

text \<open>
  Modelled from the spec: \<^verbatim>\<open>TimeoutID\<close>, \<^verbatim>\<open>requestTimeout\<close> and \<^verbatim>\<open>cancelTimeout\<close> of
  ./helpers are not part of the sources at hand. The spec describes a cancellable deferred
  callback with a fixed delay: a one-shot timer that runs its callback when the delay has
  elapsed unless it was cancelled before. A handle is a number; a live timer is a handle
  with its deadline.
\<close>

type_synonym TimeoutID = nat

text \<open>
  The mutable state of a mounted grid that scrolling acts on: the React scroll state, the
  \<^verbatim>\<open>scrollLeft\<close> and \<^verbatim>\<open>scrollTop\<close> of the two scrollbar elements (\<open>None\<close> while a ref
  is not attached), the \<^verbatim>\<open>scrollTo(coords)\<close> callbacks that \<^verbatim>\<open>scrollToItem\<close> has queued with
  \<^verbatim>\<open>window.requestAnimationFrame\<close> (oldest first), the \<^verbatim>\<open>resetIsScrollingTimeoutID\<close> ref
  and the live timers.
\<close>

record GridRuntime =
  scrollState :: ScrollState
  horizontalScrollRef :: "int option"
  verticalScrollRef :: "int option"
  animationFrames :: "OptionalScrollCoords list"
  resetIsScrollingTimeoutID :: "TimeoutID option"
  timeouts :: "(TimeoutID \<times> nat) list"
  nextTimeoutID :: TimeoutID

definition scrollTo :: "GridProps \<Rightarrow> OptionalScrollCoords \<Rightarrow> GridRuntime \<Rightarrow> GridRuntime" where
  "scrollTo p coords g =
     (if showScrollbar p then
        g\<lparr>horizontalScrollRef :=
             (case (horizontalScrollRef g, optScrollLeft coords) of
                (Some cur, Some l) \<Rightarrow> Some l
              | _ \<Rightarrow> horizontalScrollRef g),
           verticalScrollRef :=
             (case (verticalScrollRef g, optScrollTop coords) of
                (Some cur, Some t) \<Rightarrow> Some t
              | _ \<Rightarrow> verticalScrollRef g)\<rparr>
      else
        g\<lparr>scrollState := (scrollState g)
             \<lparr>scrollLeft := (case optScrollLeft coords of
                               None \<Rightarrow> scrollLeft (scrollState g) | Some l \<Rightarrow> l),
              scrollTop := (case optScrollTop coords of
                              None \<Rightarrow> scrollTop (scrollState g) | Some t \<Rightarrow> t)\<rparr>\<rparr>)"

text \<open>
  The offsets that \<^verbatim>\<open>scrollToItem\<close> computes (its \<^verbatim>\<open>coords\<close>). In JavaScript
  \<^verbatim>\<open>rowIndex && rowIndex < frozenRows\<close> is falsy when \<^verbatim>\<open>rowIndex\<close> is \<^verbatim>\<open>undefined\<close> and
  also when it is 0, and so is the condition of \<^verbatim>\<open>rowIndex ? getRowHeight(...) : 0\<close>. The
  unused \<^verbatim>\<open>x\<close> and \<^verbatim>\<open>y\<close> of the source only warm the size cache. The alignment defaults
  to \<^verbatim>\<open>Align.smart\<close> when the caller gives none.
\<close>

definition scrollToItem_coords ::
  "Helpers \<Rightarrow> GridProps \<Rightarrow> ScrollState \<Rightarrow> OptionalCellInterface \<Rightarrow> Align option
     \<Rightarrow> OptionalScrollCoords" where
  "scrollToItem_coords h p s cell align_arg =
     (let align = (case align_arg of None \<Rightarrow> Align_smart | Some a \<Rightarrow> a);
          isFrozenRow = (case optRowIndex cell of
                           None \<Rightarrow> False | Some r \<Rightarrow> r \<noteq> 0 \<and> r < frozenRows p);
          isFrozenColumn = (case optColumnIndex cell of
                              None \<Rightarrow> False | Some c \<Rightarrow> c \<noteq> 0 \<and> c < frozenColumns p);
          frozenColumnOffset = getColumnOffset h (frozenColumns p);
          width = (case optColumnIndex cell of
                     None \<Rightarrow> 0 | Some c \<Rightarrow> if c \<noteq> 0 then getColumnWidth h c else 0);
          height = (case optRowIndex cell of
                      None \<Rightarrow> 0 | Some r \<Rightarrow> if r \<noteq> 0 then getRowHeight h r else 0);
          columnAlign = (if width > containerWidth p then Align_start else align);
          rowAlign = (if height > containerHeight p then Align_start else align);
          newScrollLeft =
            (case optColumnIndex cell of
               None \<Rightarrow> None
             | Some c \<Rightarrow>
                 if \<not> isFrozenColumn
                 then Some (getOffsetForColumnAndAlignment h c columnAlign (scrollLeft s)
                              frozenColumnOffset)
                 else None);
          frozenRowOffset = getRowOffset h (frozenRows p);
          newScrollTop =
            (case optRowIndex cell of
               None \<Rightarrow> None
             | Some r \<Rightarrow>
                 if \<not> isFrozenRow
                 then Some (getOffsetForRowAndAlignment h r rowAlign (scrollTop s) frozenRowOffset)
                 else None)
      in \<lparr>optScrollTop = newScrollTop, optScrollLeft = newScrollLeft\<rparr>)"

definition isOutsideViewport :: "ViewPortProps \<Rightarrow> OptionalCellInterface \<Rightarrow> bool" where
  "isOutsideViewport v cell =
     ((case optRowIndex cell of
         None \<Rightarrow> False
       | Some r \<Rightarrow> r > rowStopIndex v + (rowStopIndex v - rowStartIndex v))
      \<or> (case optColumnIndex cell of
            None \<Rightarrow> False
          | Some c \<Rightarrow> c > columnStopIndex v + (columnStopIndex v - columnStartIndex v)))"

text \<open>
  \<^verbatim>\<open>scrollToItem\<close>; \<open>v\<close> is the rendered window (\<^verbatim>\<open>rowStartIndex\<close>, ...) that the callback
  has captured. A deferred \<^verbatim>\<open>scrollTo(coords)\<close> joins the queue of animation-frame
  callbacks.
\<close>

definition scrollToItem ::
  "Helpers \<Rightarrow> GridProps \<Rightarrow> ViewPortProps \<Rightarrow> OptionalCellInterface \<Rightarrow> Align option
     \<Rightarrow> GridRuntime \<Rightarrow> GridRuntime" where
  "scrollToItem h p v cell align_arg g =
     (let coords = scrollToItem_coords h p (scrollState g) cell align_arg
      in if isOutsideViewport v cell
         then g\<lparr>animationFrames := animationFrames g @ [coords]\<rparr>
         else scrollTo p coords g)"

text \<open>The next paint cycle: the browser runs the queued callbacks in order.\<close>

definition runAnimationFrame :: "GridProps \<Rightarrow> GridRuntime \<Rightarrow> GridRuntime" where
  "runAnimationFrame p g = fold (scrollTo p) (animationFrames g) (g\<lparr>animationFrames := []\<rparr>)"

section \<open>Scroll events and the is-scrolling debounce\<close>

definition RESET_SCROLL_EVENTS_DEBOUNCE_INTERVAL :: nat where
  "RESET_SCROLL_EVENTS_DEBOUNCE_INTERVAL = 150"

text \<open>
  Modelled from the spec: \<^verbatim>\<open>requestTimeout(callback, delay)\<close> called at time \<open>now\<close> starts
  a timer with deadline \<open>now + delay\<close> and returns its handle; \<^verbatim>\<open>cancelTimeout\<close> removes
  the timer with the given handle. The only callback that Grid.tsx passes to
  \<^verbatim>\<open>requestTimeout\<close> is \<^verbatim>\<open>resetIsScrolling\<close>, so a live timer needs no callback field.
\<close>

definition requestTimeout :: "nat \<Rightarrow> nat \<Rightarrow> GridRuntime \<Rightarrow> TimeoutID \<times> GridRuntime" where
  "requestTimeout now delay g =
     (nextTimeoutID g,
      g\<lparr>timeouts := timeouts g @ [(nextTimeoutID g, now + delay)],
        nextTimeoutID := Suc (nextTimeoutID g)\<rparr>)"

definition cancelTimeout :: "TimeoutID \<Rightarrow> GridRuntime \<Rightarrow> GridRuntime" where
  "cancelTimeout tid g = g\<lparr>timeouts := filter (\<lambda>t. fst t \<noteq> tid) (timeouts g)\<rparr>"

definition resetIsScrolling :: "GridRuntime \<Rightarrow> GridRuntime" where
  "resetIsScrolling g =
     g\<lparr>resetIsScrollingTimeoutID := None,
       scrollState := (scrollState g)\<lparr>isScrolling := False\<rparr>\<rparr>"

definition resetIsScrollingDebounced :: "nat \<Rightarrow> GridRuntime \<Rightarrow> GridRuntime" where
  "resetIsScrollingDebounced now g =
     (let g1 = (case resetIsScrollingTimeoutID g of
                  Some tid \<Rightarrow> cancelTimeout tid g
                | None \<Rightarrow> g);
          (tid, g2) = requestTimeout now RESET_SCROLL_EVENTS_DEBOUNCE_INTERVAL g1
      in g2\<lparr>resetIsScrollingTimeoutID := Some tid\<rparr>)"

text \<open>
  \<^verbatim>\<open>handleScroll\<close> and \<^verbatim>\<open>handleScrollLeft\<close>, at time \<open>now\<close>, for an event whose target has
  the given \<^verbatim>\<open>scrollTop\<close> (\<^verbatim>\<open>scrollLeft\<close>). The \<^verbatim>\<open>onImmediateScroll\<close> callback belongs to
  the caller and is left out.
\<close>

definition handleScroll :: "nat \<Rightarrow> int \<Rightarrow> GridRuntime \<Rightarrow> GridRuntime" where
  "handleScroll now newScrollTop g =
     resetIsScrollingDebounced now
       (g\<lparr>scrollState := (scrollState g)
            \<lparr>isScrolling := True,
             verticalScrollDirection :=
               (if scrollTop (scrollState g) > newScrollTop then Up else Down),
             scrollTop := newScrollTop\<rparr>\<rparr>)"

definition handleScrollLeft :: "nat \<Rightarrow> int \<Rightarrow> GridRuntime \<Rightarrow> GridRuntime" where
  "handleScrollLeft now newScrollLeft g =
     resetIsScrollingDebounced now
       (g\<lparr>scrollState := (scrollState g)
            \<lparr>isScrolling := True,
             horizontalScrollDirection :=
               (if scrollLeft (scrollState g) > newScrollLeft then Left_dir else Right_dir),
             scrollLeft := newScrollLeft\<rparr>\<rparr>)"

text \<open>
  Time passing up to \<open>now\<close>: every live timer whose deadline has been reached is removed
  and its callback \<^verbatim>\<open>resetIsScrolling\<close> runs. The second component lists the deadlines at
  which the callback ran.
\<close>

definition runTimeouts :: "nat \<Rightarrow> GridRuntime \<Rightarrow> GridRuntime \<times> nat list" where
  "runTimeouts now g =
     (let due = filter (\<lambda>t. snd t \<le> now) (timeouts g);
          g1 = g\<lparr>timeouts := filter (\<lambda>t. \<not> snd t \<le> now) (timeouts g)\<rparr>
      in (fold (\<lambda>t. resetIsScrolling) due g1, map snd due))"

datatype ScrollEvent = VerticalScroll int | HorizontalScroll int

fun dispatch :: "nat \<Rightarrow> ScrollEvent \<Rightarrow> GridRuntime \<Rightarrow> GridRuntime" where
  "dispatch now (VerticalScroll t) g = handleScroll now t g"
| "dispatch now (HorizontalScroll l) g = handleScrollLeft now l g"

text \<open>
  A trace of scroll events with their times: before an event is handled, the timers that
  are due by then have fired. The result is the final state and the times at which
  \<^verbatim>\<open>resetIsScrolling\<close> ran during the trace.
\<close>

fun runEvents :: "(nat \<times> ScrollEvent) list \<Rightarrow> GridRuntime \<Rightarrow> GridRuntime \<times> nat list" where
  "runEvents [] g = (g, [])"
| "runEvents ((now, e) # es) g =
     (case runTimeouts now g of
        (g1, fired1) \<Rightarrow>
          (case runEvents es (dispatch now e g1) of
             (g2, fired2) \<Rightarrow> (g2, fired1 @ fired2)))"

text \<open>
  A burst: at least one event, in time order, each one less than the debounce interval
  after the one before.
\<close>

fun isBurst :: "(nat \<times> ScrollEvent) list \<Rightarrow> bool" where
  "isBurst [] = False"
| "isBurst [e] = True"
| "isBurst (e1 # e2 # es) =
     (fst e1 \<le> fst e2 \<and> fst e2 < fst e1 + RESET_SCROLL_EVENTS_DEBOUNCE_INTERVAL
      \<and> isBurst (e2 # es))"

section \<open>The render pass over the cells\<close>

text \<open>
  The props that \<^verbatim>\<open>itemRenderer\<close> receives: the cell, its pixel rectangle and the
  \<^verbatim>\<open>isMergedCell\<close> flag (\<open>None\<close> where the call site passes none). The \<^verbatim>\<open>key\<close> is a
  function of the two indices and is left out.
\<close>

record RendererProps = CellInterface +
  x_px :: int
  y_px :: int
  width_px :: int
  height_px :: int
  isMergedCell_prop :: "bool option"

text \<open>\<^verbatim>\<open>isHiddenRow?.(rowIndex)\<close>: falsy when the prop is absent.\<close>

definition hiddenRow :: "GridProps \<Rightarrow> int \<Rightarrow> bool" where
  "hiddenRow p r = (case isHiddenRow p of None \<Rightarrow> False | Some f \<Rightarrow> f r)"

text \<open>\<^verbatim>\<open>getCellOffsetFromCoords\<close>; the \<^verbatim>\<open>CellPosition\<close> is the tuple \<open>(x, y, width, height)\<close>.\<close>

definition getCellOffsetFromCoords ::
  "Helpers \<Rightarrow> MergedCellMap \<Rightarrow> CellInterface \<Rightarrow> int \<times> int \<times> int \<times> int" where
  "getCellOffsetFromCoords h m cell =
     (let bounds = getCellBounds m cell;
          x = getColumnOffset h (left bounds);
          y = getRowOffset h (top_idx bounds);
          width = getColumnOffset h (right bounds + 1) - x;
          height = getRowOffset h (bottom bounds + 1) - y
      in (x, y, width, height))"

text \<open>
  The body of the inner loop, which the source repeats verbatim in the four walks (main
  cells, frozen rows, frozen columns, frozen intersection): given the set
  \<^verbatim>\<open>mergedCellRenderMap\<close> it returns the updated set and the \<^verbatim>\<open>itemRenderer\<close> call it
  pushes, or no call when it takes the \<^verbatim>\<open>continue\<close> for an already rendered merged cell.
  The overlay renderer is a different callback and is left out.
\<close>

definition renderCell ::
  "Helpers \<Rightarrow> MergedCellMap \<Rightarrow> int \<Rightarrow> int \<Rightarrow> CellId set \<Rightarrow> CellId set \<times> RendererProps list" where
  "renderCell h m rowIdx columnIdx mergedCellRenderMap =
     (let isMerged = isMergedCell m \<lparr>rowIndex = rowIdx, columnIndex = columnIdx\<rparr>;
          bounds = getCellBounds m \<lparr>rowIndex = rowIdx, columnIndex = columnIdx\<rparr>;
          actualRowIndex = (if isMerged then top_idx bounds else rowIdx);
          actualColumnIndex = (if isMerged then left bounds else columnIdx);
          actualBottom = max rowIdx (bottom bounds);
          actualRight = max columnIdx (right bounds);
          cellId = cellIdentifier (top_idx bounds) (left bounds)
      in if isMerged \<and> cellId \<in> mergedCellRenderMap then (mergedCellRenderMap, [])
         else
           (let y = getRowOffset h actualRowIndex;
                height = getRowOffset h actualBottom - y + getRowHeight h actualBottom;
                x = getColumnOffset h actualColumnIndex;
                width = getColumnOffset h actualRight - x + getColumnWidth h actualRight
            in (if isMerged then insert cellId mergedCellRenderMap else mergedCellRenderMap,
                [\<lparr>rowIndex = actualRowIndex, columnIndex = actualColumnIndex,
                  x_px = x, y_px = y, width_px = width, height_px = height,
                  isMergedCell_prop = Some isMerged\<rparr>])))"

text \<open>The loop body run over the cells that a walk visits, in order.\<close>

fun renderCells ::
  "Helpers \<Rightarrow> MergedCellMap \<Rightarrow> (int \<times> int) list \<Rightarrow> CellId set
     \<Rightarrow> CellId set \<times> RendererProps list" where
  "renderCells h m [] mergedCellRenderMap = (mergedCellRenderMap, [])"
| "renderCells h m ((rowIdx, columnIdx) # cs) mergedCellRenderMap =
     (case renderCell h m rowIdx columnIdx mergedCellRenderMap of
        (seen1, out1) \<Rightarrow>
          (case renderCells h m cs seen1 of
             (seen2, out2) \<Rightarrow> (seen2, out1 @ out2)))"

text \<open>
  The cells each pair of nested \<^verbatim>\<open>for\<close> loops visits, in order: the row range with the
  rows it skips (\<^verbatim>\<open>continue\<close>) removed, and for each such row the column range with the
  skipped columns removed. The main walk runs only under \<^verbatim>\<open>columnCount > 0 && rowCount\<close>.
\<close>

definition mainWalk :: "GridProps \<Rightarrow> ViewPortProps \<Rightarrow> (int \<times> int) list" where
  "mainWalk p v =
     (if columnCount p > 0 \<and> rowCount p \<noteq> 0 then
        concat (map (\<lambda>r. map (\<lambda>c. (r, c))
                       (filter (\<lambda>c. \<not> c < frozenColumns p)
                          [columnStartIndex v..columnStopIndex v]))
                 (filter (\<lambda>r. \<not> (r < frozenRows p \<or> hiddenRow p r))
                    [rowStartIndex v..rowStopIndex v]))
      else [])"

definition frozenRowWalk :: "GridProps \<Rightarrow> ViewPortProps \<Rightarrow> (int \<times> int) list" where
  "frozenRowWalk p v =
     concat (map (\<lambda>r. map (\<lambda>c. (r, c))
                    (filter (\<lambda>c. \<not> c < frozenColumns p)
                       [columnStartIndex v..columnStopIndex v]))
              (filter (\<lambda>r. \<not> hiddenRow p r)
                 [0..min (rowStopIndex v) (frozenRows p) - 1]))"

definition frozenColumnWalk :: "GridProps \<Rightarrow> ViewPortProps \<Rightarrow> (int \<times> int) list" where
  "frozenColumnWalk p v =
     concat (map (\<lambda>r. map (\<lambda>c. (r, c))
                    [0..min (columnStopIndex v) (frozenColumns p) - 1])
              (filter (\<lambda>r. \<not> (r < frozenRows p \<or> hiddenRow p r))
                 [rowStartIndex v..rowStopIndex v]))"

definition frozenIntersectionWalk :: "GridProps \<Rightarrow> ViewPortProps \<Rightarrow> (int \<times> int) list" where
  "frozenIntersectionWalk p v =
     concat (map (\<lambda>r. map (\<lambda>c. (r, c))
                    [0..min (columnStopIndex v) (frozenColumns p) - 1])
              (filter (\<lambda>r. \<not> hiddenRow p r)
                 [0..min (rowStopIndex v) (frozenRows p) - 1]))"

text \<open>The extended cells (\<^verbatim>\<open>ranges\<close>): one call per cell area that is not skipped.\<close>

definition renderRanges :: "Helpers \<Rightarrow> GridProps \<Rightarrow> MergedCellMap \<Rightarrow> RendererProps list" where
  "renderRanges h p m =
     concat (map (\<lambda>area.
        if rowIndex area < frozenRows p \<or> columnIndex area < frozenColumns p
           \<or> isMergedCell m \<lparr>rowIndex = rowIndex area, columnIndex = columnIndex area\<rparr>
        then []
        else (let x = getColumnOffset h (columnIndex area);
                  y = getRowOffset h (rowIndex area);
                  height = getRowHeight h (rowIndex area);
                  offsetX = fst (getCellOffsetFromCoords h m
                                   \<lparr>rowIndex = rowIndex area,
                                    columnIndex = toColumnIndex area + 1\<rparr>)
              in [\<lparr>rowIndex = rowIndex area, columnIndex = columnIndex area,
                   x_px = x, y_px = y, width_px = offsetX - x, height_px = height,
                   isMergedCell_prop = None\<rparr>]))
       (cellAreas p))"

text \<open>\<^verbatim>\<open>getViewPort\<close>: the window of the current render.\<close>

definition getViewPort :: "Helpers \<Rightarrow> GridProps \<Rightarrow> ScrollState \<Rightarrow> ViewPortProps" where
  "getViewPort h p s =
     \<lparr>rowStartIndex = fst (getVerticalRangeToRender h p s),
      rowStopIndex = fst (snd (getVerticalRangeToRender h p s)),
      columnStartIndex = fst (getHorizontalRangeToRender h p s),
      columnStopIndex = fst (snd (getHorizontalRangeToRender h p s))\<rparr>"

text \<open>
  One render pass of the component body, as far as \<^verbatim>\<open>itemRenderer\<close> is concerned: the set
  \<^verbatim>\<open>mergedCellRenderMap\<close> is created empty and threaded through the four walks in the
  order of the source; the result is the five arrays of rendered cells.
\<close>

record RenderedCells =
  cells :: "RendererProps list"
  ranges :: "RendererProps list"
  frozenRowCells :: "RendererProps list"
  frozenColumnCells :: "RendererProps list"
  frozenIntersectionCells :: "RendererProps list"

definition renderPass :: "Helpers \<Rightarrow> GridProps \<Rightarrow> ScrollState \<Rightarrow> RenderedCells" where
  "renderPass h p s =
     (let v = getViewPort h p s;
          m = mergedCellMap (mergedCells p);
          mergedCellRenderMap = {};
          (seen1, cells1) = renderCells h m (mainWalk p v) mergedCellRenderMap;
          ranges1 = renderRanges h p m;
          (seen2, frozenRowCells1) = renderCells h m (frozenRowWalk p v) seen1;
          (seen3, frozenColumnCells1) = renderCells h m (frozenColumnWalk p v) seen2;
          (seen4, frozenIntersectionCells1) = renderCells h m (frozenIntersectionWalk p v) seen3
      in \<lparr>cells = cells1, ranges = ranges1, frozenRowCells = frozenRowCells1,
          frozenColumnCells = frozenColumnCells1,
          frozenIntersectionCells = frozenIntersectionCells1\<rparr>)"

text \<open>All \<^verbatim>\<open>itemRenderer\<close> calls of a pass, and those among a list made for a merged region
  with a given anchor.\<close>

definition itemRendererCalls :: "RenderedCells \<Rightarrow> RendererProps list" where
  "itemRendererCalls out =
     cells out @ ranges out @ frozenRowCells out @ frozenColumnCells out
       @ frozenIntersectionCells out"

definition mergedCallsAt :: "CellId \<Rightarrow> RendererProps list \<Rightarrow> RendererProps list" where
  "mergedCallsAt anchor calls =
     filter (\<lambda>c. isMergedCell_prop c = Some True
                  \<and> cellIdentifier (rowIndex c) (columnIndex c) = anchor) calls"

section \<open>An instance of the parameters\<close>

text \<open>
  A concrete environment for the examples below: a grid of 100 rows of height 20 and 26
  columns of width 60 in a container of 800 x 600, with helpers that answer for these
  uniform sizes, and a stage whose transform is the identity.
\<close>

definition uniformHelpers :: Helpers where
  "uniformHelpers =
     \<lparr>getRowStartIndexForOffset = (\<lambda>off. max 0 (min 99 (off div 20))),
      getRowStopIndexForStartIndex = (\<lambda>startIndex top. max startIndex (min 99 ((top + 600) div 20))),
      getColumnStartIndexForOffset = (\<lambda>off. max 0 (min 25 (off div 60))),
      getColumnStopIndexForStartIndex = (\<lambda>startIndex lft. max startIndex (min 25 ((lft + 800) div 60))),
      getRowOffset = (\<lambda>i. i * 20),
      getColumnOffset = (\<lambda>i. i * 60),
      getRowHeight = (\<lambda>i. 20),
      getColumnWidth = (\<lambda>i. 60),
      getOffsetForRowAndAlignment = (\<lambda>i align scrollOffset frozenOffset.
         case align of
           Align_start \<Rightarrow> max 0 (i * 20 - frozenOffset)
         | Align_end \<Rightarrow> max 0 ((i + 1) * 20 - 600)
         | Align_center \<Rightarrow> max 0 (i * 20 + 10 - 300)
         | Align_smart \<Rightarrow>
             (if scrollOffset + frozenOffset \<le> i * 20 \<and> (i + 1) * 20 \<le> scrollOffset + 600
              then scrollOffset
              else if i * 20 < scrollOffset + frozenOffset then max 0 (i * 20 - frozenOffset)
              else max 0 ((i + 1) * 20 - 600))),
      getOffsetForColumnAndAlignment = (\<lambda>i align scrollOffset frozenOffset.
         case align of
           Align_start \<Rightarrow> max 0 (i * 60 - frozenOffset)
         | Align_end \<Rightarrow> max 0 ((i + 1) * 60 - 800)
         | Align_center \<Rightarrow> max 0 (i * 60 + 30 - 400)
         | Align_smart \<Rightarrow>
             (if scrollOffset + frozenOffset \<le> i * 60 \<and> (i + 1) * 60 \<le> scrollOffset + 800
              then scrollOffset
              else if i * 60 < scrollOffset + frozenOffset then max 0 (i * 60 - frozenOffset)
              else max 0 ((i + 1) * 60 - 800))),
      getRelativePositionFromOffset = (\<lambda>l t. Some (l, t))\<rparr>"

definition uniformProps :: GridProps where
  "uniformProps =
     \<lparr>containerWidth = 800, containerHeight = 600, rowCount = 100, columnCount = 26,
      showScrollbar = False, frozenRows = 0, frozenColumns = 0,
      mergedCells = [\<lparr>top_idx = 1, bottom = 2, left = 1, right = 3\<rparr>],
      overscanCount = 3, isHiddenRow = None, cellAreas = []\<rparr>"

definition initialScrollState :: ScrollState where
  "initialScrollState =
     \<lparr>scrollTop = 0, scrollLeft = 0, isScrolling = False,
      verticalScrollDirection = Down, horizontalScrollDirection = Right_dir\<rparr>"

definition initialRuntime :: GridRuntime where
  "initialRuntime =
     \<lparr>scrollState = initialScrollState, horizontalScrollRef = Some 0, verticalScrollRef = Some 0,
      animationFrames = [], resetIsScrollingTimeoutID = None, timeouts = [], nextTimeoutID = 0\<rparr>"

definition initialViewPort :: ViewPortProps where
  "initialViewPort =
     \<lparr>rowStartIndex = 0, rowStopIndex = 33, columnStartIndex = 0, columnStopIndex = 16\<rparr>"


section \<open>Theorems\<close>

subsection \<open>Invalidation\<close>

text \<open>
  C5. Invalidating one axis from index \<open>i\<close> (\<^verbatim>\<open>resetAfterIndices\<close> called with only that
  axis's index) sets that axis's last measured index to the minimum of its previous value
  and \<open>i - 1\<close> and empties that axis's list of stale indices; every other field of the
  instance state, in particular the other axis's last measured index and stale list, is
  left as it was. Hence after invalidating from index 10 the last measured index is
  below 10.
\<close>

theorem resetAfterIndices_invalidates_axis:
  "instanceProps (resetAfterIndices \<lparr>optRowIndex = Some i, optColumnIndex = None\<rparr> f g) =
     (instanceProps g)\<lparr>recalcRowIndices := [],
        lastMeasuredRowIndex := min (lastMeasuredRowIndex (instanceProps g)) (i - 1)\<rparr>
   \<and> instanceProps (resetAfterIndices \<lparr>optRowIndex = None, optColumnIndex = Some i\<rparr> f g) =
     (instanceProps g)\<lparr>recalcColumnIndices := [],
        lastMeasuredColumnIndex := min (lastMeasuredColumnIndex (instanceProps g)) (i - 1)\<rparr>
   \<and> lastMeasuredRowIndex
       (instanceProps (resetAfterIndices \<lparr>optRowIndex = Some 10, optColumnIndex = None\<rparr> f g)) < 10
   \<and> lastMeasuredColumnIndex
       (instanceProps (resetAfterIndices \<lparr>optRowIndex = None, optColumnIndex = Some 10\<rparr> f g)) < 10"
  by (simp add: resetAfterIndices_def Let_def min_less_iff_disj)

subsection \<open>The merged-cell map\<close>

lemma set_getBoundedCells:
  "set (getBoundedCells b) =
     {(i, j). top_idx b \<le> i \<and> i \<le> bottom b \<and> left b \<le> j \<and> j \<le> right b}"
  by (auto simp: getBoundedCells_def cellIdentifier_def)

lemma anchor_in_getBoundedCells:
  "k \<in> set (getBoundedCells b) \<Longrightarrow> cellIdentifier (top_idx b) (left b) \<in> set (getBoundedCells b)"
  by (auto simp: set_getBoundedCells cellIdentifier_def)

lemma fold_set_cells:
  "fold (\<lambda>cell m'. m'(cell \<mapsto> b)) cs m k = (if k \<in> set cs then Some b else m k)"
  by (induction cs arbitrary: m) auto

lemma find_app:
  "find P (xs @ ys) = (case find P xs of None \<Rightarrow> find P ys | Some x \<Rightarrow> Some x)"
  by (induction xs) auto

lemma find_SomeD: "find P xs = Some x \<Longrightarrow> x \<in> set xs \<and> P x"
  by (induction xs) (auto split: if_splits)

lemma fold_regions_lookup:
  assumes "\<And>b m. F b m k = (if P b then Some b else m k)"
  shows "fold F rs m0 k = (case find P (rev rs) of Some b \<Rightarrow> Some b | None \<Rightarrow> m0 k)"
proof (induction rs arbitrary: m0)
  case Nil
  show ?case by simp
next
  case (Cons r rs)
  show ?case
    by (simp add: Cons.IH find_app assms split: option.splits)
qed

lemma mergedCellMap_lookup:
  "mergedCellMap rs k = find (\<lambda>b. k \<in> set (getBoundedCells b)) (rev rs)"
  unfolding mergedCellMap_def
  by (subst fold_regions_lookup [where P = "\<lambda>b. k \<in> set (getBoundedCells b)"])
     (simp_all add: fold_set_cells split: option.splits)

lemma mergedCellMap_SomeD:
  "mergedCellMap rs k = Some b \<Longrightarrow> b \<in> set rs \<and> k \<in> set (getBoundedCells b)"
  by (auto simp: mergedCellMap_lookup dest: find_SomeD)

lemma mergedCellMap_None_iff:
  "mergedCellMap rs k = None \<longleftrightarrow> (\<forall>b \<in> set rs. k \<notin> set (getBoundedCells b))"
  by (auto simp: mergedCellMap_lookup find_None_iff)

lemma mergedCellMap_owner:
  assumes "nonOverlapping rs" and "b \<in> set rs" and "k \<in> set (getBoundedCells b)"
  shows "mergedCellMap rs k = Some b"
proof (cases "mergedCellMap rs k")
  case None
  with assms(2,3) show ?thesis by (simp add: mergedCellMap_None_iff)
next
  case (Some b')
  then have b': "b' \<in> set rs" "k \<in> set (getBoundedCells b')"
    by (simp_all add: mergedCellMap_SomeD)
  have "b' = b"
  proof (rule ccontr)
    assume "b' \<noteq> b"
    with assms(1,2) b'(1) have "set (getBoundedCells b') \<inter> set (getBoundedCells b) = {}"
      by (simp add: nonOverlapping_def)
    with assms(3) b'(2) show False by blast
  qed
  with Some show ?thesis by simp
qed

lemma anchor_is_canonical:
  assumes "nonOverlapping rs" and "mergedCellMap rs k = Some b"
  shows "mergedCellMap rs (cellIdentifier (top_idx b) (left b)) = Some b"
proof -
  from assms(2) have "b \<in> set rs" "k \<in> set (getBoundedCells b)"
    by (simp_all add: mergedCellMap_SomeD)
  then show ?thesis
    using assms(1) anchor_in_getBoundedCells mergedCellMap_owner by blast
qed

lemma bounds_anchor_canonical:
  assumes "nonOverlapping rs"
  shows "getActualCellCoords (mergedCellMap rs)
           \<lparr>rowIndex = top_idx (getCellBounds (mergedCellMap rs) c),
            columnIndex = left (getCellBounds (mergedCellMap rs) c)\<rparr> =
         \<lparr>rowIndex = top_idx (getCellBounds (mergedCellMap rs) c),
          columnIndex = left (getCellBounds (mergedCellMap rs) c)\<rparr>"
proof (cases "mergedCellMap rs (cellIdentifier (rowIndex c) (columnIndex c))")
  case None
  then show ?thesis by (simp add: getActualCellCoords_def getCellBounds_def)
next
  case (Some b)
  with assms have "mergedCellMap rs (cellIdentifier (top_idx b) (left b)) = Some b"
    by (rule anchor_is_canonical)
  with Some show ?thesis by (simp add: getActualCellCoords_def getCellBounds_def)
qed

lemma getActualCellCoords_bounds:
  "getActualCellCoords m c =
     \<lparr>rowIndex = top_idx (getCellBounds m c), columnIndex = left (getCellBounds m c)\<rparr>"
  by (simp add: getActualCellCoords_def getCellBounds_def split: option.splits)

text \<open>
  C6. With merged regions that do not overlap (the invariant of the data model), the
  canonical cell is idempotent: canonicalising a canonical cell changes nothing. A cell
  inside a merged region of the list is sent to that region's top-left anchor, and a cell
  inside no region is returned unchanged.
\<close>

theorem getActualCellCoords_idempotent:
  assumes "nonOverlapping rs"
  shows "getActualCellCoords (mergedCellMap rs) (getActualCellCoords (mergedCellMap rs) c) =
           getActualCellCoords (mergedCellMap rs) c
         \<and> (\<forall>b \<in> set rs.
               cellIdentifier (rowIndex c) (columnIndex c) \<in> set (getBoundedCells b) \<longrightarrow>
               getActualCellCoords (mergedCellMap rs) c =
                 \<lparr>rowIndex = top_idx b, columnIndex = left b\<rparr>)
         \<and> ((\<forall>b \<in> set rs. cellIdentifier (rowIndex c) (columnIndex c) \<notin> set (getBoundedCells b)) \<longrightarrow>
               getActualCellCoords (mergedCellMap rs) c = c)"
proof (intro conjI ballI impI)
  show "getActualCellCoords (mergedCellMap rs) (getActualCellCoords (mergedCellMap rs) c) =
          getActualCellCoords (mergedCellMap rs) c"
    using bounds_anchor_canonical [OF assms, of c]
    by (simp add: getActualCellCoords_bounds [of _ c])
next
  fix b
  assume "b \<in> set rs"
    and "cellIdentifier (rowIndex c) (columnIndex c) \<in> set (getBoundedCells b)"
  with assms have "mergedCellMap rs (cellIdentifier (rowIndex c) (columnIndex c)) = Some b"
    by (rule mergedCellMap_owner)
  then show "getActualCellCoords (mergedCellMap rs) c = \<lparr>rowIndex = top_idx b, columnIndex = left b\<rparr>"
    by (simp add: getActualCellCoords_def)
next
  assume "\<forall>b \<in> set rs. cellIdentifier (rowIndex c) (columnIndex c) \<notin> set (getBoundedCells b)"
  then have "mergedCellMap rs (cellIdentifier (rowIndex c) (columnIndex c)) = None"
    by (simp add: mergedCellMap_None_iff)
  then show "getActualCellCoords (mergedCellMap rs) c = c"
    by (simp add: getActualCellCoords_def)
qed

theorem getActualCellCoords_idempotent_witness:
  "nonOverlapping [\<lparr>top_idx = 1, bottom = 2, left = 1, right = 3\<rparr>,
                   \<lparr>top_idx = 0, bottom = 0, left = 0, right = 4\<rparr>]
   \<and> getActualCellCoords
        (mergedCellMap [\<lparr>top_idx = 1, bottom = 2, left = 1, right = 3\<rparr>,
                        \<lparr>top_idx = 0, bottom = 0, left = 0, right = 4\<rparr>])
        \<lparr>rowIndex = 2, columnIndex = 3\<rparr> = \<lparr>rowIndex = 1, columnIndex = 1\<rparr>
   \<and> getActualCellCoords
        (mergedCellMap [\<lparr>top_idx = 1, bottom = 2, left = 1, right = 3\<rparr>,
                        \<lparr>top_idx = 0, bottom = 0, left = 0, right = 4\<rparr>])
        \<lparr>rowIndex = 1, columnIndex = 1\<rparr> = \<lparr>rowIndex = 1, columnIndex = 1\<rparr>"
proof -
  let ?rs = "[\<lparr>top_idx = 1, bottom = 2, left = 1, right = 3\<rparr>,
              \<lparr>top_idx = 0, bottom = 0, left = 0, right = 4\<rparr>]"
  have h: "nonOverlapping ?rs"
    by (auto simp: nonOverlapping_def set_getBoundedCells)
  have k: "cellIdentifier 2 3 \<in> set (getBoundedCells \<lparr>top_idx = 1, bottom = 2, left = 1, right = 3\<rparr>)"
    by (simp add: set_getBoundedCells cellIdentifier_def)
  note t = getActualCellCoords_idempotent [OF h, of "\<lparr>rowIndex = 2, columnIndex = 3\<rparr>"]
  from t k have e: "getActualCellCoords (mergedCellMap ?rs) \<lparr>rowIndex = 2, columnIndex = 3\<rparr> =
      \<lparr>rowIndex = 1, columnIndex = 1\<rparr>"
    by simp
  from t have "getActualCellCoords (mergedCellMap ?rs)
      (getActualCellCoords (mergedCellMap ?rs) \<lparr>rowIndex = 2, columnIndex = 3\<rparr>) =
      getActualCellCoords (mergedCellMap ?rs) \<lparr>rowIndex = 2, columnIndex = 3\<rparr>"
    by (rule conjunct1)
  then have "getActualCellCoords (mergedCellMap ?rs) \<lparr>rowIndex = 1, columnIndex = 1\<rparr> =
      \<lparr>rowIndex = 1, columnIndex = 1\<rparr>"
    by (simp only: e)
  with h e show ?thesis by (intro conjI)
qed

text \<open>
  The hypothesis is needed: with two overlapping regions the anchor of the region that owns
  a cell can itself be owned by the other region, and canonicalising twice moves on.
\<close>

lemma overlap_breaks_idempotence:
  "getActualCellCoords
     (mergedCellMap [\<lparr>top_idx = 1, bottom = 2, left = 1, right = 2\<rparr>,
                     \<lparr>top_idx = 0, bottom = 1, left = 0, right = 1\<rparr>])
     \<lparr>rowIndex = 2, columnIndex = 2\<rparr> = \<lparr>rowIndex = 1, columnIndex = 1\<rparr>
   \<and> getActualCellCoords
     (mergedCellMap [\<lparr>top_idx = 1, bottom = 2, left = 1, right = 2\<rparr>,
                     \<lparr>top_idx = 0, bottom = 1, left = 0, right = 1\<rparr>])
     \<lparr>rowIndex = 1, columnIndex = 1\<rparr> = \<lparr>rowIndex = 0, columnIndex = 0\<rparr>"
  by (simp add: getActualCellCoords_def mergedCellMap_lookup set_getBoundedCells
      cellIdentifier_def)

subsection \<open>Pixel hit-testing\<close>

text \<open>
  C10. With merged regions that do not overlap, every cell that pixel hit-testing returns
  is canonical: \<^verbatim>\<open>getActualCellCoords\<close> maps it to itself. When the position resolves to
  a cell inside a merged region, the result is that region's top-left anchor.
\<close>

theorem getCellCoordsFromOffset_canonical:
  assumes "nonOverlapping (mergedCells p)"
    and "getCellCoordsFromOffset h p s left_px top_px = Some c"
  shows "getActualCellCoords (mergedCellMap (mergedCells p)) c = c
         \<and> (\<forall>x y b. getRelativePositionFromOffset h left_px top_px = Some (x, y)
               \<and> b \<in> set (mergedCells p)
               \<and> cellIdentifier
                    (getRowStartIndexForOffset h
                       (if isWithinFrozenRowBoundary h p y then y else y + scrollTop s))
                    (getColumnStartIndexForOffset h
                       (if isWithinFrozenColumnBoundary h p x then x else x + scrollLeft s))
                  \<in> set (getBoundedCells b)
               \<longrightarrow> c = \<lparr>rowIndex = top_idx b, columnIndex = left b\<rparr>)"
proof (intro conjI allI impI)
  show "getActualCellCoords (mergedCellMap (mergedCells p)) c = c"
    using assms(2) bounds_anchor_canonical [OF assms(1)]
    by (auto simp: getCellCoordsFromOffset_def Let_def split: option.splits)
next
  fix x y b
  assume a: "getRelativePositionFromOffset h left_px top_px = Some (x, y)
               \<and> b \<in> set (mergedCells p)
               \<and> cellIdentifier
                    (getRowStartIndexForOffset h
                       (if isWithinFrozenRowBoundary h p y then y else y + scrollTop s))
                    (getColumnStartIndexForOffset h
                       (if isWithinFrozenColumnBoundary h p x then x else x + scrollLeft s))
                  \<in> set (getBoundedCells b)"
  let ?r = "getRowStartIndexForOffset h
              (if isWithinFrozenRowBoundary h p y then y else y + scrollTop s)"
  let ?c = "getColumnStartIndexForOffset h
              (if isWithinFrozenColumnBoundary h p x then x else x + scrollLeft s)"
  from a have "mergedCellMap (mergedCells p) (cellIdentifier ?r ?c) = Some b"
    using mergedCellMap_owner [OF assms(1)] by blast
  then have "getCellBounds (mergedCellMap (mergedCells p)) \<lparr>rowIndex = ?r, columnIndex = ?c\<rparr> = b"
    by (simp add: getCellBounds_def)
  with a assms(2) show "c = \<lparr>rowIndex = top_idx b, columnIndex = left b\<rparr>"
    by (auto simp: getCellCoordsFromOffset_def Let_def)
qed

theorem getCellCoordsFromOffset_canonical_witness:
  "nonOverlapping (mergedCells uniformProps)
   \<and> getCellCoordsFromOffset uniformHelpers uniformProps initialScrollState 130 50 =
       Some \<lparr>rowIndex = 1, columnIndex = 1\<rparr>
   \<and> getActualCellCoords (mergedCellMap (mergedCells uniformProps))
       \<lparr>rowIndex = 1, columnIndex = 1\<rparr> = \<lparr>rowIndex = 1, columnIndex = 1\<rparr>"
proof -
  have h: "nonOverlapping (mergedCells uniformProps)"
    by (simp add: nonOverlapping_def uniformProps_def)
  have m: "mergedCellMap (mergedCells uniformProps) (cellIdentifier 2 2) =
      Some \<lparr>top_idx = 1, bottom = 2, left = 1, right = 3\<rparr>"
    by (simp add: mergedCellMap_lookup uniformProps_def set_getBoundedCells cellIdentifier_def)
  have e: "getCellCoordsFromOffset uniformHelpers uniformProps initialScrollState 130 50 =
      Some \<lparr>rowIndex = 1, columnIndex = 1\<rparr>"
    using m
    by (simp add: getCellCoordsFromOffset_def uniformHelpers_def initialScrollState_def
        isWithinFrozenRowBoundary_def isWithinFrozenColumnBoundary_def getCellBounds_def
        uniformProps_def)
  from getCellCoordsFromOffset_canonical [OF h e] h e show ?thesis by simp
qed

subsection \<open>Viewport range\<close>




text \<open>
  C2. Overscan depends on the scroll direction. While scrolling down, the backward (upward)
  overscan of the row axis is exactly 1 and the forward (downward) overscan is
  \<open>max 1 overscanCount\<close>; while scrolling up it is the other way round. When the grid is not
  scrolling, both edges get \<open>max 1 overscanCount\<close>. The column axis does the same with
  left for backward and right for forward. These amounts are the ones the two range
  functions subtract from the start index and add to the stop index.
\<close>

theorem overscan_direction_sensitive:
  "(isScrolling s \<and> verticalScrollDirection s = Down \<longrightarrow>
      overscanBackward_vertical p s = 1
      \<and> overscanForward_vertical p s = max 1 (overscanCount p))
   \<and> (isScrolling s \<and> verticalScrollDirection s = Up \<longrightarrow>
      overscanBackward_vertical p s = max 1 (overscanCount p)
      \<and> overscanForward_vertical p s = 1)
   \<and> (isScrolling s \<and> horizontalScrollDirection s = Right_dir \<longrightarrow>
      overscanBackward_horizontal p s = 1
      \<and> overscanForward_horizontal p s = max 1 (overscanCount p))
   \<and> (isScrolling s \<and> horizontalScrollDirection s = Left_dir \<longrightarrow>
      overscanBackward_horizontal p s = max 1 (overscanCount p)
      \<and> overscanForward_horizontal p s = 1)
   \<and> (\<not> isScrolling s \<longrightarrow>
      overscanBackward_vertical p s = max 1 (overscanCount p)
      \<and> overscanForward_vertical p s = max 1 (overscanCount p)
      \<and> overscanBackward_horizontal p s = max 1 (overscanCount p)
      \<and> overscanForward_horizontal p s = max 1 (overscanCount p))
   \<and> getVerticalRangeToRender h p s =
       (max 0 (getRowStartIndexForOffset h (scrollTop s) - overscanBackward_vertical p s),
        max 0 (min (rowCount p - 1)
          (getRowStopIndexForStartIndex h (getRowStartIndexForOffset h (scrollTop s)) (scrollTop s)
             + overscanForward_vertical p s)),
        getRowStartIndexForOffset h (scrollTop s),
        getRowStopIndexForStartIndex h (getRowStartIndexForOffset h (scrollTop s)) (scrollTop s))
   \<and> getHorizontalRangeToRender h p s =
       (max 0 (getColumnStartIndexForOffset h (scrollLeft s) - overscanBackward_horizontal p s),
        max 0 (min (columnCount p - 1)
          (getColumnStopIndexForStartIndex h (getColumnStartIndexForOffset h (scrollLeft s))
             (scrollLeft s) + overscanForward_horizontal p s)),
        getColumnStartIndexForOffset h (scrollLeft s),
        getColumnStopIndexForStartIndex h (getColumnStartIndexForOffset h (scrollLeft s))
          (scrollLeft s))"
  by (simp add: overscanBackward_vertical_def overscanForward_vertical_def
      overscanBackward_horizontal_def overscanForward_horizontal_def
      getVerticalRangeToRender_def getHorizontalRangeToRender_def Let_def)

theorem overscan_direction_sensitive_witness:
  "isScrolling (initialScrollState\<lparr>isScrolling := True\<rparr>)
   \<and> verticalScrollDirection (initialScrollState\<lparr>isScrolling := True\<rparr>) = Down
   \<and> overscanBackward_vertical uniformProps (initialScrollState\<lparr>isScrolling := True\<rparr>) = 1
   \<and> overscanForward_vertical uniformProps (initialScrollState\<lparr>isScrolling := True\<rparr>) = 3
   \<and> overscanBackward_horizontal uniformProps (initialScrollState\<lparr>isScrolling := True\<rparr>) = 1
   \<and> overscanForward_horizontal uniformProps (initialScrollState\<lparr>isScrolling := True\<rparr>) = 3
   \<and> overscanBackward_vertical uniformProps initialScrollState = 3"
  using overscan_direction_sensitive
    [of "initialScrollState\<lparr>isScrolling := True\<rparr>" uniformProps uniformHelpers]
    overscan_direction_sensitive [of initialScrollState uniformProps uniformHelpers]
  by (simp add: initialScrollState_def uniformProps_def)

subsection \<open>Scrolling to a cell\<close>

lemma scrollTo_nothing:
  "scrollTo p \<lparr>optScrollTop = None, optScrollLeft = None\<rparr> g = g"
  by (simp add: scrollTo_def split: option.splits)

lemma scrollToItem_coords_frozen_nonzero:
  "r \<noteq> 0 \<Longrightarrow> r < frozenRows p \<Longrightarrow>
     optScrollTop (scrollToItem_coords h p s \<lparr>optRowIndex = Some r, optColumnIndex = ci\<rparr> a) = None"
  "c \<noteq> 0 \<Longrightarrow> c < frozenColumns p \<Longrightarrow>
     optScrollLeft (scrollToItem_coords h p s \<lparr>optRowIndex = ri, optColumnIndex = Some c\<rparr> a) = None"
  by (simp_all add: scrollToItem_coords_def Let_def)

lemma scrollToItem_coords_oversized_nonzero:
  "c \<noteq> 0 \<Longrightarrow> \<not> c < frozenColumns p \<Longrightarrow> getColumnWidth h c > containerWidth p \<Longrightarrow>
     optScrollLeft (scrollToItem_coords h p s \<lparr>optRowIndex = ri, optColumnIndex = Some c\<rparr> a) =
       Some (getOffsetForColumnAndAlignment h c Align_start (scrollLeft s)
               (getColumnOffset h (frozenColumns p)))"
  "r \<noteq> 0 \<Longrightarrow> \<not> r < frozenRows p \<Longrightarrow> getRowHeight h r > containerHeight p \<Longrightarrow>
     optScrollTop (scrollToItem_coords h p s \<lparr>optRowIndex = Some r, optColumnIndex = ci\<rparr> a) =
       Some (getOffsetForRowAndAlignment h r Align_start (scrollTop s)
               (getRowOffset h (frozenRows p)))"
  by (simp_all add: scrollToItem_coords_def Let_def)

text \<open>
  C3. A target in the frozen region must not be scrolled on that axis, index 0 included.
  The code tests \<^verbatim>\<open>rowIndex && rowIndex < frozenRows\<close>, which is falsy for index 0: with one
  frozen row (column), a request for row (column) 0 does compute a new offset for that
  axis, whatever the alignment. In the uniform grid with one frozen row, scrolled to 400,
  \<^verbatim>\<open>scrollToItem({rowIndex: 0}, Align.start)\<close> moves \<^verbatim>\<open>scrollTop\<close> to 0.
\<close>

theorem scrollToItem_index_zero_not_frozen:
  "optScrollTop (scrollToItem_coords h (p\<lparr>frozenRows := 1\<rparr>) s
       \<lparr>optRowIndex = Some 0, optColumnIndex = None\<rparr> a) \<noteq> None
   \<and> optScrollLeft (scrollToItem_coords h (p\<lparr>frozenColumns := 1\<rparr>) s
       \<lparr>optRowIndex = None, optColumnIndex = Some 0\<rparr> a) \<noteq> None
   \<and> scrollTop (scrollState (initialRuntime\<lparr>scrollState := initialScrollState\<lparr>scrollTop := 400\<rparr>\<rparr>)) = 400
   \<and> scrollTop (scrollState
       (scrollToItem uniformHelpers (uniformProps\<lparr>frozenRows := 1\<rparr>) initialViewPort
          \<lparr>optRowIndex = Some 0, optColumnIndex = None\<rparr> (Some Align_start)
          (initialRuntime\<lparr>scrollState := initialScrollState\<lparr>scrollTop := 400\<rparr>\<rparr>))) = 0"
  by (simp add: scrollToItem_coords_def scrollToItem_def scrollTo_def isOutsideViewport_def
      uniformHelpers_def uniformProps_def initialRuntime_def initialScrollState_def
      initialViewPort_def Let_def)

text \<open>
  C4. A target wider (taller) than the container must be aligned to the start. The code
  reads the width as \<^verbatim>\<open>columnIndex ? getColumnWidth(columnIndex, ...) : 0\<close>, so for index 0
  the size compared with the container is 0 and the requested alignment is kept, however
  large column (row) 0 is. Example: column 0 of width 1000 in a container of width 800, requested
  alignment end: the column helper is called with end, not start.
\<close>

theorem scrollToItem_index_zero_keeps_alignment:
  "optScrollLeft (scrollToItem_coords h (p\<lparr>frozenColumns := 0\<rparr>) s
       \<lparr>optRowIndex = None, optColumnIndex = Some 0\<rparr> (Some a)) =
     Some (getOffsetForColumnAndAlignment h 0
             (if 0 > containerWidth p then Align_start else a) (scrollLeft s) (getColumnOffset h 0))
   \<and> optScrollTop (scrollToItem_coords h (p\<lparr>frozenRows := 0\<rparr>) s
       \<lparr>optRowIndex = Some 0, optColumnIndex = None\<rparr> (Some a)) =
     Some (getOffsetForRowAndAlignment h 0
             (if 0 > containerHeight p then Align_start else a) (scrollTop s) (getRowOffset h 0))
   \<and> getColumnWidth (uniformHelpers\<lparr>getColumnWidth := (\<lambda>i. if i = 0 then 1000 else 60),
          getOffsetForColumnAndAlignment :=
            (\<lambda>i align scrollOffset frozenOffset. if align = Align_start then 0 else 200)\<rparr>) 0
       > containerWidth uniformProps
   \<and> optScrollLeft (scrollToItem_coords
        (uniformHelpers\<lparr>getColumnWidth := (\<lambda>i. if i = 0 then 1000 else 60),
          getOffsetForColumnAndAlignment :=
            (\<lambda>i align scrollOffset frozenOffset. if align = Align_start then 0 else 200)\<rparr>)
        uniformProps initialScrollState
        \<lparr>optRowIndex = None, optColumnIndex = Some 0\<rparr> (Some Align_end)) = Some 200"
  by (simp add: scrollToItem_coords_def uniformHelpers_def uniformProps_def
      initialScrollState_def Let_def)

text \<open>
  C8. A request is outside the viewport when its row index exceeds the rendered stop row
  by more than the span of the rendered rows, or its column index does so for the
  columns. Then \<^verbatim>\<open>scrollToItem\<close> changes nothing synchronously and only queues the computed
  offsets for the next animation frame, where they are applied by \<^verbatim>\<open>scrollTo\<close>; otherwise
  the offsets are applied at once and nothing is queued.
\<close>

theorem scrollToItem_defers_far_targets:
  "(isOutsideViewport v cell \<longleftrightarrow>
      (\<exists>r. optRowIndex cell = Some r \<and> r > rowStopIndex v + (rowStopIndex v - rowStartIndex v))
      \<or> (\<exists>c. optColumnIndex cell = Some c
              \<and> c > columnStopIndex v + (columnStopIndex v - columnStartIndex v)))
   \<and> (isOutsideViewport v cell \<longrightarrow>
        scrollToItem h p v cell a g =
          g\<lparr>animationFrames :=
               animationFrames g @ [scrollToItem_coords h p (scrollState g) cell a]\<rparr>
        \<and> (animationFrames g = [] \<longrightarrow>
             runAnimationFrame p (scrollToItem h p v cell a g) =
               scrollTo p (scrollToItem_coords h p (scrollState g) cell a) g))
   \<and> (\<not> isOutsideViewport v cell \<longrightarrow>
        scrollToItem h p v cell a g =
          scrollTo p (scrollToItem_coords h p (scrollState g) cell a) g
        \<and> animationFrames (scrollToItem h p v cell a g) = animationFrames g)"
proof (intro conjI impI)
  show "isOutsideViewport v cell \<longleftrightarrow>
      (\<exists>r. optRowIndex cell = Some r \<and> r > rowStopIndex v + (rowStopIndex v - rowStartIndex v))
      \<or> (\<exists>c. optColumnIndex cell = Some c
              \<and> c > columnStopIndex v + (columnStopIndex v - columnStartIndex v))"
    by (auto simp: isOutsideViewport_def split: option.splits)
next
  assume "isOutsideViewport v cell"
  then show "scrollToItem h p v cell a g =
      g\<lparr>animationFrames := animationFrames g @ [scrollToItem_coords h p (scrollState g) cell a]\<rparr>"
    by (simp add: scrollToItem_def Let_def)
next
  assume far: "isOutsideViewport v cell" and q: "animationFrames g = []"
  then have "g\<lparr>animationFrames := []\<rparr> = g"
    by (cases g) simp
  then have eq: "g\<lparr>animationFrames := []\<rparr> = g" .
  from far q have "runAnimationFrame p (scrollToItem h p v cell a g) =
      scrollTo p (scrollToItem_coords h p (scrollState g) cell a) (g\<lparr>animationFrames := []\<rparr>)"
    by (simp add: scrollToItem_def runAnimationFrame_def Let_def)
  then show "runAnimationFrame p (scrollToItem h p v cell a g) =
      scrollTo p (scrollToItem_coords h p (scrollState g) cell a) g"
    by (simp only: eq)
next
  assume "\<not> isOutsideViewport v cell"
  then show "scrollToItem h p v cell a g =
      scrollTo p (scrollToItem_coords h p (scrollState g) cell a) g"
    by (simp add: scrollToItem_def Let_def)
next
  assume "\<not> isOutsideViewport v cell"
  then show "animationFrames (scrollToItem h p v cell a g) = animationFrames g"
    by (simp add: scrollToItem_def scrollTo_def Let_def)
qed

theorem scrollToItem_defers_far_targets_witness:
  "isOutsideViewport initialViewPort \<lparr>optRowIndex = Some 80, optColumnIndex = None\<rparr>
   \<and> scrollState (scrollToItem uniformHelpers uniformProps initialViewPort
        \<lparr>optRowIndex = Some 80, optColumnIndex = None\<rparr> (Some Align_end) initialRuntime) =
       initialScrollState
   \<and> scrollTop (scrollState (runAnimationFrame uniformProps
        (scrollToItem uniformHelpers uniformProps initialViewPort
           \<lparr>optRowIndex = Some 80, optColumnIndex = None\<rparr> (Some Align_end) initialRuntime))) = 1020
   \<and> \<not> isOutsideViewport initialViewPort \<lparr>optRowIndex = Some 40, optColumnIndex = None\<rparr>
   \<and> scrollTop (scrollState (scrollToItem uniformHelpers uniformProps initialViewPort
        \<lparr>optRowIndex = Some 40, optColumnIndex = None\<rparr> (Some Align_end) initialRuntime)) = 220"
proof -
  have far: "isOutsideViewport initialViewPort \<lparr>optRowIndex = Some 80, optColumnIndex = None\<rparr>"
    by (simp add: isOutsideViewport_def initialViewPort_def)
  have near: "\<not> isOutsideViewport initialViewPort \<lparr>optRowIndex = Some 40, optColumnIndex = None\<rparr>"
    by (simp add: isOutsideViewport_def initialViewPort_def)
  have q: "animationFrames initialRuntime = []"
    by (simp add: initialRuntime_def)
  note t1 = scrollToItem_defers_far_targets
    [of initialViewPort "\<lparr>optRowIndex = Some 80, optColumnIndex = None\<rparr>"
        uniformHelpers uniformProps "Some Align_end" initialRuntime]
  note t2 = scrollToItem_defers_far_targets
    [of initialViewPort "\<lparr>optRowIndex = Some 40, optColumnIndex = None\<rparr>"
        uniformHelpers uniformProps "Some Align_end" initialRuntime]
  let ?far = "\<lparr>optRowIndex = Some 80, optColumnIndex = None\<rparr>"
  let ?near = "\<lparr>optRowIndex = Some 40, optColumnIndex = None\<rparr>"
  from t1 far have e1:
    "scrollToItem uniformHelpers uniformProps initialViewPort ?far (Some Align_end) initialRuntime =
       initialRuntime\<lparr>animationFrames := animationFrames initialRuntime @
         [scrollToItem_coords uniformHelpers uniformProps (scrollState initialRuntime) ?far
            (Some Align_end)]\<rparr>"
    by blast
  from t1 far q have e2:
    "runAnimationFrame uniformProps
       (scrollToItem uniformHelpers uniformProps initialViewPort ?far (Some Align_end)
          initialRuntime) =
     scrollTo uniformProps
       (scrollToItem_coords uniformHelpers uniformProps (scrollState initialRuntime) ?far
          (Some Align_end)) initialRuntime"
    by blast
  from t2 near have e3:
    "scrollToItem uniformHelpers uniformProps initialViewPort ?near (Some Align_end)
       initialRuntime =
     scrollTo uniformProps
       (scrollToItem_coords uniformHelpers uniformProps (scrollState initialRuntime) ?near
          (Some Align_end)) initialRuntime"
    by blast
  have c1: "scrollState (initialRuntime\<lparr>animationFrames := animationFrames initialRuntime @
         [scrollToItem_coords uniformHelpers uniformProps (scrollState initialRuntime) ?far
            (Some Align_end)]\<rparr>) = initialScrollState"
    by (simp add: initialRuntime_def)
  have c2: "scrollTop (scrollState (scrollTo uniformProps
       (scrollToItem_coords uniformHelpers uniformProps (scrollState initialRuntime) ?far
          (Some Align_end)) initialRuntime)) = 1020"
    by (simp add: scrollToItem_coords_def scrollTo_def uniformHelpers_def uniformProps_def
        initialRuntime_def initialScrollState_def Let_def)
  have c3: "scrollTop (scrollState (scrollTo uniformProps
       (scrollToItem_coords uniformHelpers uniformProps (scrollState initialRuntime) ?near
          (Some Align_end)) initialRuntime)) = 220"
    by (simp add: scrollToItem_coords_def scrollTo_def uniformHelpers_def uniformProps_def
        initialRuntime_def initialScrollState_def Let_def)
  have w1: "scrollState (scrollToItem uniformHelpers uniformProps initialViewPort ?far
      (Some Align_end) initialRuntime) = initialScrollState"
    using c1 by (simp only: e1)
  have w2: "scrollTop (scrollState (runAnimationFrame uniformProps
      (scrollToItem uniformHelpers uniformProps initialViewPort ?far (Some Align_end)
         initialRuntime))) = 1020"
    using c2 by (simp only: e2)
  have w3: "scrollTop (scrollState (scrollToItem uniformHelpers uniformProps initialViewPort
      ?near (Some Align_end) initialRuntime)) = 220"
    using c3 by (simp only: e3)
  show ?thesis
    by (intro conjI far w1 w2 near w3)
qed

subsection \<open>The is-scrolling debounce\<close>

lemma dispatch_single_timer:
  assumes "case resetIsScrollingTimeoutID g of
             None \<Rightarrow> timeouts g = []
           | Some tid \<Rightarrow> (\<exists>d. timeouts g = [(tid, d)])"
  shows "\<exists>tid. timeouts (dispatch now e g) = [(tid, now + RESET_SCROLL_EVENTS_DEBOUNCE_INTERVAL)]
           \<and> resetIsScrollingTimeoutID (dispatch now e g) = Some tid"
    and "isScrolling (scrollState (dispatch now e g))"
  using assms
  by (cases e; auto simp: handleScroll_def handleScrollLeft_def resetIsScrollingDebounced_def
      requestTimeout_def cancelTimeout_def Let_def split: option.splits)+

lemma runTimeouts_none_due:
  assumes "\<forall>t \<in> set (timeouts g). now < snd t"
  shows "runTimeouts now g = (g, [])"
proof -
  from assms have "filter (\<lambda>t. snd t \<le> now) (timeouts g) = []"
    by (auto simp: filter_empty_conv)
  moreover from assms have "filter (\<lambda>t. \<not> snd t \<le> now) (timeouts g) = timeouts g"
    by (auto simp: filter_id_conv)
  ultimately show ?thesis
    by (simp add: runTimeouts_def)
qed

lemma runTimeouts_single_due:
  assumes "timeouts g = [(tid, d)]" and "d \<le> now"
  shows "runTimeouts now g =
           (g\<lparr>timeouts := [], resetIsScrollingTimeoutID := None,
              scrollState := (scrollState g)\<lparr>isScrolling := False\<rparr>\<rparr>, [d])"
  using assms by (simp add: runTimeouts_def resetIsScrolling_def)

lemma burst_keeps_scrolling:
  assumes "isBurst es"
    and "case resetIsScrollingTimeoutID g of
           None \<Rightarrow> timeouts g = []
         | Some tid \<Rightarrow> (\<exists>d. timeouts g = [(tid, d)] \<and> fst (hd es) < d)"
  shows "snd (runEvents es g) = []
         \<and> isScrolling (scrollState (fst (runEvents es g)))
         \<and> (\<exists>tid. timeouts (fst (runEvents es g)) =
                     [(tid, fst (last es) + RESET_SCROLL_EVENTS_DEBOUNCE_INTERVAL)]
                   \<and> resetIsScrollingTimeoutID (fst (runEvents es g)) = Some tid)"
  using assms
proof (induction es arbitrary: g rule: isBurst.induct)
  case 1
  then show ?case by simp
next
  case (2 e)
  obtain now ev where e: "e = (now, ev)" by (cases e)
  from "2.prems"(2) have nd: "\<forall>t \<in> set (timeouts g). now < snd t"
    by (auto simp: e split: option.splits)
  from "2.prems"(2) have c: "case resetIsScrollingTimeoutID g of
       None \<Rightarrow> timeouts g = [] | Some tid \<Rightarrow> (\<exists>d. timeouts g = [(tid, d)])"
    by (auto split: option.splits)
  show ?case
    using dispatch_single_timer [OF c, of now ev]
    by (simp add: e runTimeouts_none_due [OF nd])
next
  case (3 e1 e2 es)
  obtain now ev where e: "e1 = (now, ev)" by (cases e1)
  from "3.prems"(2) have nd: "\<forall>t \<in> set (timeouts g). now < snd t"
    by (auto simp: e split: option.splits)
  from "3.prems"(2) have c: "case resetIsScrollingTimeoutID g of
       None \<Rightarrow> timeouts g = [] | Some tid \<Rightarrow> (\<exists>d. timeouts g = [(tid, d)])"
    by (auto split: option.splits)
  from "3.prems"(1) have b: "isBurst (e2 # es)"
    and lt: "fst e2 < now + RESET_SCROLL_EVENTS_DEBOUNCE_INTERVAL"
    by (simp_all add: e)
  from dispatch_single_timer(1) [OF c, of now ev] lt
  have c': "case resetIsScrollingTimeoutID (dispatch now ev g) of
       None \<Rightarrow> timeouts (dispatch now ev g) = []
     | Some tid \<Rightarrow> (\<exists>d. timeouts (dispatch now ev g) = [(tid, d)] \<and> fst (hd (e2 # es)) < d)"
    by auto
  from "3.IH" [OF b c'] show ?case
    by (simp add: e runTimeouts_none_due [OF nd] split: prod.splits)
qed

text \<open>
  C9. Every scroll event sets \<^verbatim>\<open>isScrolling\<close> and replaces the pending debounce timer by
  one that is due 150 time units later. So for a burst of scroll events that starts with
  no timer pending, the flag-clearing callback does not run during the burst, the flag is
  set and exactly one timer is pending at its end, and when time has passed to any point
  at least 150 units after the last event the callback has run exactly once, at the time
  of the last event plus 150, and the flag is cleared; it has not run at any earlier time.
\<close>

theorem scroll_burst_clears_once:
  assumes "isBurst es"
    and "timeouts g = []" and "resetIsScrollingTimeoutID g = None"
    and "fst (last es) + 150 \<le> T"
    and "T' < fst (last es) + 150"
  shows "isScrolling (scrollState (dispatch now e g'))
         \<and> snd (runEvents es g) = []
         \<and> isScrolling (scrollState (fst (runEvents es g)))
         \<and> (\<exists>tid. timeouts (fst (runEvents es g)) = [(tid, fst (last es) + 150)]
                   \<and> resetIsScrollingTimeoutID (fst (runEvents es g)) = Some tid)
         \<and> snd (runTimeouts T' (fst (runEvents es g))) = []
         \<and> snd (runTimeouts T (fst (runEvents es g))) = [fst (last es) + 150]
         \<and> \<not> isScrolling (scrollState (fst (runTimeouts T (fst (runEvents es g)))))
         \<and> timeouts (fst (runTimeouts T (fst (runEvents es g)))) = []"
proof -
  have s: "isScrolling (scrollState (dispatch now e g'))"
    by (cases e) (simp_all add: handleScroll_def handleScrollLeft_def
        resetIsScrollingDebounced_def requestTimeout_def cancelTimeout_def Let_def
        split: prod.splits option.splits)
  from assms(2,3) have c: "case resetIsScrollingTimeoutID g of
       None \<Rightarrow> timeouts g = []
     | Some tid \<Rightarrow> (\<exists>d. timeouts g = [(tid, d)] \<and> fst (hd es) < d)"
    by simp
  from burst_keeps_scrolling [OF assms(1) c]
  obtain tid where quiet: "snd (runEvents es g) = []"
    and on: "isScrolling (scrollState (fst (runEvents es g)))"
    and tm: "timeouts (fst (runEvents es g)) = [(tid, fst (last es) + 150)]"
    and rid: "resetIsScrollingTimeoutID (fst (runEvents es g)) = Some tid"
    by (auto simp: RESET_SCROLL_EVENTS_DEBOUNCE_INTERVAL_def)
  from tm assms(5) have early: "snd (runTimeouts T' (fst (runEvents es g))) = []"
    by (simp add: runTimeouts_none_due)
  note due = runTimeouts_single_due [OF tm assms(4)]
  from s quiet on tm rid early show ?thesis
    by (simp add: due)
qed

theorem scroll_burst_clears_once_witness:
  "isBurst [(0, VerticalScroll 10), (30, VerticalScroll 40), (60, VerticalScroll 30),
            (90, HorizontalScroll 5), (120, VerticalScroll 60)]
   \<and> snd (runEvents [(0, VerticalScroll 10), (30, VerticalScroll 40), (60, VerticalScroll 30),
            (90, HorizontalScroll 5), (120, VerticalScroll 60)] initialRuntime) = []
   \<and> snd (runTimeouts 269 (fst (runEvents [(0, VerticalScroll 10), (30, VerticalScroll 40),
            (60, VerticalScroll 30), (90, HorizontalScroll 5), (120, VerticalScroll 60)]
            initialRuntime))) = []
   \<and> snd (runTimeouts 270 (fst (runEvents [(0, VerticalScroll 10), (30, VerticalScroll 40),
            (60, VerticalScroll 30), (90, HorizontalScroll 5), (120, VerticalScroll 60)]
            initialRuntime))) = [270]"
proof -
  let ?es = "[(0, VerticalScroll 10), (30, VerticalScroll 40), (60, VerticalScroll 30),
              (90, HorizontalScroll 5), (120, VerticalScroll 60)]"
  have b: "isBurst ?es"
    by (simp add: RESET_SCROLL_EVENTS_DEBOUNCE_INTERVAL_def)
  have t: "timeouts initialRuntime = []" and r: "resetIsScrollingTimeoutID initialRuntime = None"
    by (simp_all add: initialRuntime_def)
  have l: "fst (last ?es) + 150 \<le> (270::nat)" and l': "(269::nat) < fst (last ?es) + 150"
    by simp_all
  from scroll_burst_clears_once [OF b t r l l'] b show ?thesis
    by simp
qed

subsection \<open>Merged regions in a render pass\<close>

lemma mergedCallsAt_append:
  "mergedCallsAt a (xs @ ys) = mergedCallsAt a xs @ mergedCallsAt a ys"
  by (simp add: mergedCallsAt_def)

lemma mergedCallsAt_renderRanges: "mergedCallsAt a (renderRanges h p m) = []"
proof -
  have "\<forall>c \<in> set (renderRanges h p m). isMergedCell_prop c = None"
    by (auto simp: renderRanges_def Let_def split: if_splits)
  then show ?thesis
    by (auto simp: mergedCallsAt_def filter_empty_conv)
qed

lemma renderCell_effect:
  assumes "renderCell h m r c S = (S', out)"
  shows "S' = (case m (cellIdentifier r c) of
                 None \<Rightarrow> S
               | Some b \<Rightarrow> insert (cellIdentifier (top_idx b) (left b)) S)"
    and "length (mergedCallsAt a out) = (if a \<in> S' - S then 1 else 0)"
proof -
  show "S' = (case m (cellIdentifier r c) of
                 None \<Rightarrow> S
               | Some b \<Rightarrow> insert (cellIdentifier (top_idx b) (left b)) S)"
    using assms
    by (auto simp: renderCell_def isMergedCell_def getCellBounds_def Let_def
        split: option.splits if_splits)
  show "length (mergedCallsAt a out) = (if a \<in> S' - S then 1 else 0)"
    using assms
    by (auto simp: renderCell_def isMergedCell_def getCellBounds_def Let_def mergedCallsAt_def
        split: option.splits if_splits)
qed

lemma renderCells_effect:
  assumes "renderCells h m cs S = (S', out)"
  shows "S' = S \<union> {cellIdentifier (top_idx b) (left b) | b cell.
                     cell \<in> set cs \<and> m cell = Some b}
         \<and> length (mergedCallsAt a out) = (if a \<in> S' - S then 1 else 0)"
  using assms
proof (induction cs arbitrary: S S' out)
  case Nil
  then show ?case by (simp add: mergedCallsAt_def)
next
  case (Cons cell cs)
  obtain r c where cell: "cell = (r, c)" by (cases cell)
  obtain S1 o1 where step: "renderCell h m r c S = (S1, o1)"
    by (cases "renderCell h m r c S")
  obtain S2 o2 where rest: "renderCells h m cs S1 = (S2, o2)"
    by (cases "renderCells h m cs S1")
  from Cons.prems have res: "S' = S2" "out = o1 @ o2"
    by (simp_all add: cell step rest)
  note s1 = renderCell_effect [OF step]
  note ih = Cons.IH [OF rest]
  have sets: "S2 = S \<union> {cellIdentifier (top_idx b) (left b) | b cell'.
                     cell' \<in> set (cell # cs) \<and> m cell' = Some b}"
    using s1(1) ih
    by (auto simp: cell cellIdentifier_def split: option.splits)
  have sub: "S \<subseteq> S1" "S1 \<subseteq> S2"
    using s1(1) ih by (auto split: option.splits)
  have "length (mergedCallsAt a (o1 @ o2)) =
          (if a \<in> S1 - S then 1 else 0) + (if a \<in> S2 - S1 then 1 else 0)"
    using s1(2) [of a] ih by (simp add: mergedCallsAt_append)
  also have "\<dots> = (if a \<in> S2 - S then 1 else 0)"
    using sub by auto
  finally show ?case
    using sets by (simp add: res)
qed

lemma renderCells_append:
  "renderCells h m (cs1 @ cs2) S =
     (case renderCells h m cs1 S of
        (S1, o1) \<Rightarrow> (case renderCells h m cs2 S1 of (S2, o2) \<Rightarrow> (S2, o1 @ o2)))"
  by (induction cs1 arbitrary: S) (auto split: prod.splits)

lemma renderPass_merged_calls:
  "length (mergedCallsAt a (itemRendererCalls (renderPass h p s))) =
     length (mergedCallsAt a (snd (renderCells h (mergedCellMap (mergedCells p))
        (mainWalk p (getViewPort h p s) @ frozenRowWalk p (getViewPort h p s)
           @ frozenColumnWalk p (getViewPort h p s)
           @ frozenIntersectionWalk p (getViewPort h p s)) {})))"
  by (simp add: renderPass_def itemRendererCalls_def Let_def renderCells_append
      mergedCallsAt_append mergedCallsAt_renderRanges split: prod.splits)

lemma renderCell_unflagged:
  assumes "renderCell h m r c S = (S', out)" and "x \<in> set out"
    and "isMergedCell_prop x \<noteq> Some True"
  shows "m (cellIdentifier (rowIndex x) (columnIndex x)) = None"
  using assms
  by (auto simp: renderCell_def isMergedCell_def Let_def split: if_splits)

lemma renderCells_unflagged:
  assumes "renderCells h m cs S = (S', out)" and "x \<in> set out"
    and "isMergedCell_prop x \<noteq> Some True"
  shows "m (cellIdentifier (rowIndex x) (columnIndex x)) = None"
  using assms
proof (induction cs arbitrary: S S' out)
  case Nil
  then show ?case by simp
next
  case (Cons cell cs)
  obtain r c where cell: "cell = (r, c)" by (cases cell)
  obtain S1 o1 where step: "renderCell h m r c S = (S1, o1)"
    by (cases "renderCell h m r c S")
  obtain S2 o2 where rest: "renderCells h m cs S1 = (S2, o2)"
    by (cases "renderCells h m cs S1")
  from Cons.prems(1) have "out = o1 @ o2"
    by (simp add: cell step rest)
  with Cons.prems(2) consider "x \<in> set o1" | "x \<in> set o2"
    by auto
  then show ?case
  proof cases
    case 1
    from renderCell_unflagged [OF step 1 Cons.prems(3)] show ?thesis .
  next
    case 2
    from Cons.IH [OF rest 2 Cons.prems(3)] show ?thesis .
  qed
qed

lemma renderRanges_unflagged:
  assumes "x \<in> set (renderRanges h p m)"
  shows "m (cellIdentifier (rowIndex x) (columnIndex x)) = None"
  using assms
  by (auto simp: renderRanges_def isMergedCell_def Let_def split: if_splits)

lemma renderPass_unflagged:
  assumes "x \<in> set (itemRendererCalls (renderPass h p s))"
    and "isMergedCell_prop x \<noteq> Some True"
  shows "mergedCellMap (mergedCells p) (cellIdentifier (rowIndex x) (columnIndex x)) = None"
proof -
  let ?m = "mergedCellMap (mergedCells p)"
  let ?v = "getViewPort h p s"
  obtain S1 o1 where w1: "renderCells h ?m (mainWalk p ?v) {} = (S1, o1)"
    by (cases "renderCells h ?m (mainWalk p ?v) {}")
  obtain S2 o2 where w2: "renderCells h ?m (frozenRowWalk p ?v) S1 = (S2, o2)"
    by (cases "renderCells h ?m (frozenRowWalk p ?v) S1")
  obtain S3 o3 where w3: "renderCells h ?m (frozenColumnWalk p ?v) S2 = (S3, o3)"
    by (cases "renderCells h ?m (frozenColumnWalk p ?v) S2")
  obtain S4 o4 where w4: "renderCells h ?m (frozenIntersectionWalk p ?v) S3 = (S4, o4)"
    by (cases "renderCells h ?m (frozenIntersectionWalk p ?v) S3")
  have "itemRendererCalls (renderPass h p s) = o1 @ renderRanges h p ?m @ o2 @ o3 @ o4"
    by (simp add: renderPass_def itemRendererCalls_def Let_def w1 w2 w3 w4)
  with assms(1) consider "x \<in> set o1" | "x \<in> set (renderRanges h p ?m)" | "x \<in> set o2"
    | "x \<in> set o3" | "x \<in> set o4"
    by auto
  then show ?thesis
  proof cases
    case 1
    from renderCells_unflagged [OF w1 1 assms(2)] show ?thesis .
  next
    case 2
    from renderRanges_unflagged [OF 2] show ?thesis .
  next
    case 3
    from renderCells_unflagged [OF w2 3 assms(2)] show ?thesis .
  next
    case 4
    from renderCells_unflagged [OF w3 4 assms(2)] show ?thesis .
  next
    case 5
    from renderCells_unflagged [OF w4 5 assms(2)] show ?thesis .
  qed
qed

lemma anchor_is_merged:
  assumes "mergedCellMap rs k = Some b"
  shows "mergedCellMap rs (cellIdentifier (top_idx b) (left b)) \<noteq> None"
proof -
  from assms have "b \<in> set rs" "k \<in> set (getBoundedCells b)"
    by (simp_all add: mergedCellMap_SomeD)
  then have "b \<in> set rs" "cellIdentifier (top_idx b) (left b) \<in> set (getBoundedCells b)"
    by (simp_all add: anchor_in_getBoundedCells)
  then show ?thesis
    by (auto simp: mergedCellMap_None_iff)
qed

lemma calls_at_anchor_are_merged:
  assumes "mergedCellMap (mergedCells p) k = Some b"
  shows "filter (\<lambda>c. cellIdentifier (rowIndex c) (columnIndex c) =
                       cellIdentifier (top_idx b) (left b))
           (itemRendererCalls (renderPass h p s)) =
         mergedCallsAt (cellIdentifier (top_idx b) (left b))
           (itemRendererCalls (renderPass h p s))"
  unfolding mergedCallsAt_def
proof (rule filter_cong [OF refl])
  fix x
  assume x: "x \<in> set (itemRendererCalls (renderPass h p s))"
  show "(cellIdentifier (rowIndex x) (columnIndex x) = cellIdentifier (top_idx b) (left b)) =
        (isMergedCell_prop x = Some True
         \<and> cellIdentifier (rowIndex x) (columnIndex x) = cellIdentifier (top_idx b) (left b))"
  proof (cases "isMergedCell_prop x = Some True")
    case True
    then show ?thesis by simp
  next
    case False
    from renderPass_unflagged [OF x False]
    have "mergedCellMap (mergedCells p) (cellIdentifier (rowIndex x) (columnIndex x)) = None" .
    with anchor_is_merged [OF assms]
    have "cellIdentifier (rowIndex x) (columnIndex x) \<noteq> cellIdentifier (top_idx b) (left b)"
      by metis
    with False show ?thesis by simp
  qed
qed

text \<open>
  C7. In one render pass, whose set of rendered merged cells starts empty, the item
  renderer is called at most once for a merged region (the calls flagged as merged cell
  with the region's top-left anchor as their cell), counted over the main cells, the
  extended ranges and the three frozen walks together. If some walk visits a cell that
  the merged-cell map assigns to a region, that region is rendered exactly once; and no
  other call of the pass, flagged or not, is made for the anchor cell of a region that
  owns a cell.
\<close>

theorem merged_region_rendered_once:
  "length (mergedCallsAt anchor (itemRendererCalls (renderPass h p s))) \<le> 1
   \<and> (\<forall>cell \<in> set (mainWalk p (getViewPort h p s)) \<union> set (frozenRowWalk p (getViewPort h p s))
              \<union> set (frozenColumnWalk p (getViewPort h p s))
              \<union> set (frozenIntersectionWalk p (getViewPort h p s)).
        \<forall>b. mergedCellMap (mergedCells p) cell = Some b \<longrightarrow>
          length (mergedCallsAt (cellIdentifier (top_idx b) (left b))
                    (itemRendererCalls (renderPass h p s))) = 1)
   \<and> (\<forall>k b. mergedCellMap (mergedCells p) k = Some b \<longrightarrow>
          length (filter (\<lambda>c. cellIdentifier (rowIndex c) (columnIndex c) =
                               cellIdentifier (top_idx b) (left b))
                    (itemRendererCalls (renderPass h p s))) \<le> 1)"
proof -
  let ?m = "mergedCellMap (mergedCells p)"
  let ?v = "getViewPort h p s"
  let ?cs = "mainWalk p ?v @ frozenRowWalk p ?v @ frozenColumnWalk p ?v
               @ frozenIntersectionWalk p ?v"
  obtain S out where run: "renderCells h ?m ?cs {} = (S, out)"
    by (cases "renderCells h ?m ?cs {}")
  have len: "length (mergedCallsAt a (itemRendererCalls (renderPass h p s))) =
               (if a \<in> S then 1 else 0)" for a
    using renderCells_effect [OF run, of a] by (simp add: renderPass_merged_calls run)
  have S: "S = {cellIdentifier (top_idx b) (left b) | b cell. cell \<in> set ?cs \<and> ?m cell = Some b}"
    using renderCells_effect [OF run, of anchor] by simp
  show ?thesis
  proof (intro conjI ballI allI impI)
    show "length (mergedCallsAt anchor (itemRendererCalls (renderPass h p s))) \<le> 1"
      by (simp add: len)
  next
    fix cell b
    assume "cell \<in> set (mainWalk p ?v) \<union> set (frozenRowWalk p ?v)
              \<union> set (frozenColumnWalk p ?v) \<union> set (frozenIntersectionWalk p ?v)"
      and owner: "?m cell = Some b"
    then have "cell \<in> set ?cs"
      by auto
    with owner have "cellIdentifier (top_idx b) (left b) \<in> S"
      unfolding S by blast
    then show "length (mergedCallsAt (cellIdentifier (top_idx b) (left b))
                 (itemRendererCalls (renderPass h p s))) = 1"
      by (simp add: len)
  next
    fix k b
    assume "?m k = Some b"
    then show "length (filter (\<lambda>c. cellIdentifier (rowIndex c) (columnIndex c) =
                               cellIdentifier (top_idx b) (left b))
                    (itemRendererCalls (renderPass h p s))) \<le> 1"
      by (simp add: calls_at_anchor_are_merged len)
  qed
qed

theorem merged_region_rendered_once_witness:
  "(2, 1) \<in> set (mainWalk (uniformProps\<lparr>rowCount := 4, columnCount := 5, frozenRows := 2\<rparr>)
       (getViewPort uniformHelpers
          (uniformProps\<lparr>rowCount := 4, columnCount := 5, frozenRows := 2\<rparr>) initialScrollState))
   \<and> (1, 2) \<in> set (frozenRowWalk (uniformProps\<lparr>rowCount := 4, columnCount := 5, frozenRows := 2\<rparr>)
       (getViewPort uniformHelpers
          (uniformProps\<lparr>rowCount := 4, columnCount := 5, frozenRows := 2\<rparr>) initialScrollState))
   \<and> mergedCellMap (mergedCells (uniformProps\<lparr>rowCount := 4, columnCount := 5, frozenRows := 2\<rparr>))
       (2, 1) = Some \<lparr>top_idx = 1, bottom = 2, left = 1, right = 3\<rparr>
   \<and> length (mergedCallsAt (cellIdentifier 1 1)
       (itemRendererCalls (renderPass uniformHelpers
          (uniformProps\<lparr>rowCount := 4, columnCount := 5, frozenRows := 2\<rparr>)
          initialScrollState))) = 1"
proof -
  let ?p = "uniformProps\<lparr>rowCount := 4, columnCount := 5, frozenRows := 2\<rparr>"
  let ?v = "getViewPort uniformHelpers ?p initialScrollState"
  have v: "?v = \<lparr>rowStartIndex = 0, rowStopIndex = 3, columnStartIndex = 0, columnStopIndex = 4\<rparr>"
    by (simp add: getViewPort_def getVerticalRangeToRender_def
        getHorizontalRangeToRender_def uniformHelpers_def uniformProps_def initialScrollState_def
        overscanBackward_vertical_def overscanForward_vertical_def overscanBackward_horizontal_def
        overscanForward_horizontal_def Let_def)
  have a: "(2, 1) \<in> set (mainWalk ?p ?v)"
    unfolding v by (simp add: mainWalk_def uniformProps_def hiddenRow_def upto.simps)
  have a': "(1, 2) \<in> set (frozenRowWalk ?p ?v)"
    unfolding v by (simp add: frozenRowWalk_def uniformProps_def hiddenRow_def upto.simps)
  have b: "mergedCellMap (mergedCells ?p) (2, 1) = Some \<lparr>top_idx = 1, bottom = 2, left = 1, right = 3\<rparr>"
    by (simp add: mergedCellMap_lookup uniformProps_def set_getBoundedCells)
  from a have "(2, 1) \<in> set (mainWalk ?p ?v) \<union> set (frozenRowWalk ?p ?v)
      \<union> set (frozenColumnWalk ?p ?v) \<union> set (frozenIntersectionWalk ?p ?v)"
    by simp
  with merged_region_rendered_once [of "cellIdentifier 1 1" uniformHelpers ?p initialScrollState] b
  have "length (mergedCallsAt (cellIdentifier (top_idx \<lparr>top_idx = 1, bottom = 2, left = 1, right = 3\<rparr>)
           (left \<lparr>top_idx = 1, bottom = 2, left = 1, right = 3\<rparr>))
       (itemRendererCalls (renderPass uniformHelpers ?p initialScrollState))) = 1"
    by blast
  then have c: "length (mergedCallsAt (cellIdentifier 1 1)
       (itemRendererCalls (renderPass uniformHelpers ?p initialScrollState))) = 1"
    by simp
  show ?thesis
    by (intro conjI a a' b c)
qed

end
